theory Spec2Isabelle
  imports Main "HOL-Library.Word"
begin

unbundle bit_operations_syntax

section \<open>Data model of package tmx\<close>

text \<open>
  \<^verbatim>\<open>type GID uint32\<close> and \<^verbatim>\<open>type ID uint32\<close> are 32-bit words; a \<^verbatim>\<open>byte\<close> is an
  8-bit word. Go's \<^verbatim>\<open>int\<close> (the type of \<^verbatim>\<open>Layer.Width\<close> and \<^verbatim>\<open>Layer.Height\<close>) is a
  64-bit word read as two's complement by \<open>sint\<close>, so that the product
  \<^verbatim>\<open>l.Width*l.Height*4\<close> wraps around as it does in the program.
\<close>

type_synonym byte = "8 word"
type_synonym GID = "32 word"
type_synonym ID = "32 word"
type_synonym go_int = "64 word"

definition GIDHorizontalFlip :: GID where
  "GIDHorizontalFlip = 0x80000000"

definition GIDVerticalFlip :: GID where
  "GIDVerticalFlip = 0x40000000"

definition GIDDiagonalFlip :: GID where
  "GIDDiagonalFlip = 0x20000000"

definition GIDFlip :: GID where
  "GIDFlip = GIDHorizontalFlip OR GIDVerticalFlip OR GIDDiagonalFlip"

definition GIDMask :: GID where
  "GIDMask = 0x0fffffff"

text \<open>
  The five flag error values of the package, the two errors of \<^verbatim>\<open>strconv.Atoi\<close>
  (a \<^verbatim>\<open>*NumError\<close> wrapping \<^verbatim>\<open>ErrSyntax\<close> or \<^verbatim>\<open>ErrRange\<close>), an error handed up from
  a library reader (base64, gzip, zlib, xml), identified by its message, and a run-time
  panic (index out of range, makeslice: len out of range).
\<close>

datatype error =
    ErrUnsupportedEncoding
  | ErrUnsupportedCompression
  | ErrInvalidDecodedDataLen
  | ErrInvalidGID
  | ErrInvalidPointsField
  | NumErrSyntax string
  | NumErrRange string
  | LibraryError string
  | Panic

text \<open>
  Of \<^verbatim>\<open>Tileset\<close>, \<^verbatim>\<open>Data\<close>, \<^verbatim>\<open>Layer\<close> the records keep the fields that the decoding
  functions read; the other fields are attributes copied from the XML document and read
  by no function of the package. The fields of \<^verbatim>\<open>Map\<close> besides \<^verbatim>\<open>Tilesets\<close> and
  \<^verbatim>\<open>Layers\<close> travel in the extension slot of the record, so every function below is
  stated for \<open>'a Map_scheme\<close>.
\<close>

record Tileset =
  FirstGID :: GID

record Data =
  Encoding :: string
  Compression :: string
  Bytes :: "byte list"

record Layer =
  Width :: go_int
  Height :: go_int
  Data :: Data

record Map =
  Tilesets :: "Tileset list"
  Layers :: "Layer list"

text \<open>
  A \<^verbatim>\<open>*Tileset\<close> in a decoded tile is either \<^verbatim>\<open>nil\<close> or \<^verbatim>\<open>&m.Tilesets[i]\<close>, the address
  of an element of the map's tileset slice. It is modelled by the index \<open>i\<close>: two such
  pointers into the same slice are equal exactly when their indices are. The field
  \<^verbatim>\<open>Nil\<close> is named \<open>Nil_f\<close>, since \<open>Nil\<close> is the empty list.
\<close>

record DecodedTile =
  ID :: ID
  Tileset :: "nat option"
  HorizontalFlip :: bool
  VerticalFlip :: bool
  DiagonalFlip :: bool
  Nil_f :: bool

record DecodedLayer =
  DecodedTiles :: "DecodedTile list"
  Tileset :: "nat option"
  Empty :: bool

definition NilTile :: DecodedTile where
  "NilTile = \<lparr>ID = 0, Tileset = None, HorizontalFlip = False, VerticalFlip = False,
     DiagonalFlip = False, Nil_f = True\<rparr>"

section \<open>The library functions the package calls\<close>

text \<open>
  \<^verbatim>\<open>bytes.TrimSpace\<close>, \<^verbatim>\<open>base64.NewDecoder(base64.StdEncoding, bytes.NewReader(b))\<close>,
  \<^verbatim>\<open>gzip.NewReader\<close>, \<^verbatim>\<open>zlib.NewReader\<close> and \<^verbatim>\<open>ioutil.ReadAll\<close> belong to Go's
  standard library, not to the package: they are parameters of the model. \<open>'r\<close> is
  the type of an \<^verbatim>\<open>io.Reader\<close>; a library call that fails returns the message of its
  error.
\<close>

record 'r stdlib =
  bytes_TrimSpace :: "byte list \<Rightarrow> byte list"
  base64_NewDecoder :: "byte list \<Rightarrow> 'r"
  gzip_NewReader :: "'r \<Rightarrow> string + 'r"
  zlib_NewReader :: "'r \<Rightarrow> string + 'r"
  ioutil_ReadAll :: "'r \<Rightarrow> string + byte list"

section \<open>Data.decodeBytes and Layer.Decode\<close>

definition Gzip :: string where
  "Gzip = ''gzip''"

definition Zlib :: string where
  "Zlib = ''zlib''"

definition Uncompressed :: string where
  "Uncompressed = []"

definition Base64 :: string where
  "Base64 = ''base64''"

definition CSV :: string where
  "CSV = ''csv''"

text \<open>
  The \<^verbatim>\<open>switch d.Compression\<close>, whose \<^verbatim>\<open>default\<close> branch is \<open>None\<close> here,
  then the check of \<^verbatim>\<open>err\<close>, then \<^verbatim>\<open>ioutil.ReadAll(zr)\<close>. The field
  \<open>Encoding\<close> is not read.
\<close>

definition decodeBytes :: "'r stdlib \<Rightarrow> Data \<Rightarrow> error + byte list" where
  "decodeBytes lib d =
     (let encoder = base64_NewDecoder lib (bytes_TrimSpace lib (Bytes d))
      in case (if Compression d = Gzip then Some (gzip_NewReader lib encoder)
               else if Compression d = Zlib then Some (zlib_NewReader lib encoder)
               else None) of
           None \<Rightarrow> Inl ErrUnsupportedCompression
         | Some (Inl err) \<Rightarrow> Inl (LibraryError err)
         | Some (Inr zr) \<Rightarrow>
             (case ioutil_ReadAll lib zr of
                Inl err \<Rightarrow> Inl (LibraryError err)
              | Inr dataBytes \<Rightarrow> Inr dataBytes))"

text \<open>
  An index expression \<^verbatim>\<open>xs[i]\<close> with \<open>i\<close> of type \<^verbatim>\<open>int\<close> panics unless
  \<open>0 \<le> i < len(xs)\<close>.
\<close>

definition in_range :: "'a list \<Rightarrow> go_int \<Rightarrow> bool" where
  "in_range xs i = (0 \<le> sint i \<and> sint i < int (length xs))"

definition at :: "'a list \<Rightarrow> go_int \<Rightarrow> 'a" where
  "at xs i = xs ! nat (sint i)"

text \<open>
  \<^verbatim>\<open>make([]GID, n)\<close> panics (makeslice: len out of range) when \<open>n\<close> is negative or
  the \<open>4 * n\<close> bytes exceed \<^verbatim>\<open>runtime.maxAlloc\<close>, which is \<open>2 ^ 48\<close> on the 64-bit
  platforms; otherwise the slice holds \<open>n\<close> zeros. A run that exhausts the memory
  of the machine is outside the model.
\<close>

definition maxAlloc :: int where
  "maxAlloc = 2 ^ 48"

definition make_GIDs :: "go_int \<Rightarrow> error + GID list" where
  "make_GIDs n =
     (if sint n < 0 \<or> maxAlloc < 4 * sint n then Inl Panic
      else Inr (replicate (nat (sint n)) 0))"

text \<open>
  The inner loop \<^verbatim>\<open>for x := 0; x < l.Width; x++\<close> of \<^verbatim>\<open>Layer.Decode\<close>, from the
  column \<open>x\<close> on. The state is the pair of \<open>j\<close> and \<open>gids\<close>. All counters are Go
  \<^verbatim>\<open>int\<close>s, and \<^verbatim>\<open>y*l.Width+x\<close> is computed in them.
\<close>

function Decode_row ::
  "byte list \<Rightarrow> go_int \<Rightarrow> go_int \<Rightarrow> go_int \<Rightarrow> go_int \<times> GID list \<Rightarrow> error + go_int \<times> GID list"
where
  "Decode_row dataBytes W y x (j, gids) =
     (if sint x < sint W then
        (if in_range dataBytes j \<and> in_range dataBytes (j + 1) \<and>
            in_range dataBytes (j + 2) \<and> in_range dataBytes (j + 3)
         then
           (let gid = ucast (at dataBytes j) +
                      push_bit 8 (ucast (at dataBytes (j + 1))) +
                      push_bit 16 (ucast (at dataBytes (j + 2))) +
                      push_bit 24 (ucast (at dataBytes (j + 3)))
            in if in_range gids (y * W + x)
               then Decode_row dataBytes W y (x + 1)
                      (j + 4, gids[nat (sint (y * W + x)) := gid])
               else Inl Panic)
         else Inl Panic)
      else Inr (j, gids))"
  by pat_completeness auto
termination
proof (relation "measure (\<lambda>(dataBytes, W, y, x, st). nat (sint W - sint x))")
  show "wf (measure (\<lambda>(dataBytes, W, y, x, st). nat (sint W - sint x)))"
    by simp
next
  fix dataBytes :: "byte list" and W y x j :: go_int and gids :: "GID list" and gid :: GID
  assume lt: "sint x < sint W"
  have "sint W < 2 ^ 63" using sint_lt [of W] by simp
  moreover have "- (2 ^ 63) \<le> sint x" using sint_ge [of x] by simp
  ultimately have "sint (x + 1) = sint x + 1"
    using lt by (simp add: sint_word_ariths signed_take_bit_int_eq_self)
  with lt show "((dataBytes, W, y, x + 1, j + 4, gids[nat (sint (y * W + x)) := gid]),
                 (dataBytes, W, y, x, j, gids))
      \<in> measure (\<lambda>(dataBytes, W, y, x, st). nat (sint W - sint x))"
    by simp
qed

text \<open>The outer loop \<^verbatim>\<open>for y := 0; y < l.Height; y++\<close>, from the row \<open>y\<close> on.\<close>

function Decode_rows ::
  "byte list \<Rightarrow> go_int \<Rightarrow> go_int \<Rightarrow> go_int \<Rightarrow> go_int \<times> GID list \<Rightarrow> error + go_int \<times> GID list"
where
  "Decode_rows dataBytes W H y st =
     (if sint y < sint H then
        (case Decode_row dataBytes W y 0 st of
           Inl e \<Rightarrow> Inl e
         | Inr st' \<Rightarrow> Decode_rows dataBytes W H (y + 1) st')
      else Inr st)"
  by pat_completeness auto
termination
proof (relation "measure (\<lambda>(dataBytes, W, H, y, st). nat (sint H - sint y))")
  show "wf (measure (\<lambda>(dataBytes, W, H, y, st). nat (sint H - sint y)))"
    by simp
next
  fix dataBytes :: "byte list" and W H y :: go_int and st st' :: "go_int \<times> GID list"
  assume lt: "sint y < sint H"
  have "sint H < 2 ^ 63" using sint_lt [of H] by simp
  moreover have "- (2 ^ 63) \<le> sint y" using sint_ge [of y] by simp
  ultimately have "sint (y + 1) = sint y + 1"
    using lt by (simp add: sint_word_ariths signed_take_bit_int_eq_self)
  with lt show "((dataBytes, W, H, y + 1, st'), (dataBytes, W, H, y, st))
      \<in> measure (\<lambda>(dataBytes, W, H, y, st). nat (sint H - sint y))"
    by simp
qed

text \<open>
  Both loops are unfolded by hand in the proofs, one iteration at a time.
\<close>

declare Decode_row.simps [simp del] Decode_rows.simps [simp del]

definition Layer_Decode :: "'r stdlib \<Rightarrow> Layer \<Rightarrow> error + GID list" where
  "Layer_Decode lib l =
     (case decodeBytes lib (Data l) of
        Inl err \<Rightarrow> Inl err
      | Inr dataBytes \<Rightarrow>
          if int (length dataBytes) \<noteq> sint (Width l * Height l * 4)
          then Inl ErrInvalidDecodedDataLen
          else (case make_GIDs (Width l * Height l) of
                  Inl e \<Rightarrow> Inl e
                | Inr gids \<Rightarrow>
                    (case Decode_rows dataBytes (Width l) (Height l) 0 (0, gids) of
                       Inl e \<Rightarrow> Inl e
                     | Inr (j, gids') \<Rightarrow> Inr gids')))"

section \<open>Map.DecodeGID\<close>

text \<open>
  The loop \<^verbatim>\<open>for i := len(m.Tilesets) - 1; i >= 0; i--\<close>: the last argument is
  \<open>i + 1\<close>, so that \<open>0\<close> is the exit of the loop, where the function returns
  \<^verbatim>\<open>NilTile, ErrInvalidGID\<close>.
\<close>

fun DecodeGID_scan :: "Tileset list \<Rightarrow> GID \<Rightarrow> GID \<Rightarrow> nat \<Rightarrow> error + DecodedTile" where
  "DecodeGID_scan ts gid umaskedGID 0 = Inl ErrInvalidGID"
| "DecodeGID_scan ts gid umaskedGID (Suc i) =
     (if FirstGID (ts ! i) \<le> umaskedGID
      then Inr \<lparr>ID = umaskedGID - FirstGID (ts ! i),
                Tileset = Some i,
                HorizontalFlip = (gid AND GIDHorizontalFlip \<noteq> 0),
                VerticalFlip = (gid AND GIDVerticalFlip \<noteq> 0),
                DiagonalFlip = (gid AND GIDDiagonalFlip \<noteq> 0),
                Nil_f = False\<rparr>
      else DecodeGID_scan ts gid umaskedGID i)"

definition DecodeGID :: "'a Map_scheme \<Rightarrow> GID \<Rightarrow> error + DecodedTile" where
  "DecodeGID m gid =
     (if gid = 0 then Inr NilTile
      else let umaskedGID = gid AND NOT GIDFlip
           in DecodeGID_scan (Tilesets m) gid umaskedGID (length (Tilesets m)))"

section \<open>Map.DecodedLayers\<close>

text \<open>
  The inner loop \<^verbatim>\<open>for j := 0; j < len(gids); j++\<close>, over the RIDs still to resolve:
  each tile is appended to \<^verbatim>\<open>d.DecodedTiles\<close>, and the first error leaves the function.
\<close>

fun DecodedLayers_tiles ::
  "'a Map_scheme \<Rightarrow> GID list \<Rightarrow> DecodedLayer \<Rightarrow> error + DecodedLayer"
where
  "DecodedLayers_tiles m [] d = Inr d"
| "DecodedLayers_tiles m (gid # gids) d =
     (case DecodeGID m gid of
        Inl err \<Rightarrow> Inl err
      | Inr t \<Rightarrow> DecodedLayers_tiles m gids (d\<lparr>DecodedTiles := DecodedTiles d @ [t]\<rparr>))"

text \<open>
  The outer loop \<^verbatim>\<open>for i := 0; i < len(m.Layers); i++\<close>, over the layers still to
  decode, with \<^verbatim>\<open>out\<close> as accumulator. \<^verbatim>\<open>DecodedLayer{}\<close> is the zero value of the
  struct.
\<close>

fun DecodedLayers_loop ::
  "'r stdlib \<Rightarrow> 'a Map_scheme \<Rightarrow> Layer list \<Rightarrow> DecodedLayer list \<Rightarrow> error + DecodedLayer list"
where
  "DecodedLayers_loop lib m [] out = Inr out"
| "DecodedLayers_loop lib m (l # ls) out =
     (case Layer_Decode lib l of
        Inl err \<Rightarrow> Inl err
      | Inr gids \<Rightarrow>
          (case DecodedLayers_tiles m gids \<lparr>DecodedTiles = [], Tileset = None, Empty = False\<rparr> of
             Inl err \<Rightarrow> Inl err
           | Inr d \<Rightarrow> DecodedLayers_loop lib m ls (out @ [d])))"

definition DecodedLayers :: "'r stdlib \<Rightarrow> 'a Map_scheme \<Rightarrow> error + DecodedLayer list" where
  "DecodedLayers lib m = DecodedLayers_loop lib m (Layers m) []"

section \<open>getTileset and Read\<close>

text \<open>
  The loop of \<^verbatim>\<open>getTileset\<close> over the tiles still to inspect; the second argument is the
  variable \<^verbatim>\<open>tileset\<close>, \<^verbatim>\<open>nil\<close> at the start. The result is the triple
  \<^verbatim>\<open>(tileset, isEmpty, usesMultipleTilesets)\<close>. The parameter \<^verbatim>\<open>m\<close> is not used.
\<close>

fun getTileset_loop :: "DecodedTile list \<Rightarrow> nat option \<Rightarrow> nat option \<times> bool \<times> bool" where
  "getTileset_loop [] tileset =
     (if tileset = None then (None, True, False) else (tileset, False, False))"
| "getTileset_loop (tile # tiles) tileset =
     (if \<not> Nil_f tile then
        (if tileset = None then getTileset_loop tiles (DecodedTile.Tileset tile)
         else if tileset \<noteq> DecodedTile.Tileset tile then (tileset, False, True)
         else getTileset_loop tiles tileset)
      else getTileset_loop tiles tileset)"

definition getTileset :: "'a Map_scheme \<Rightarrow> DecodedLayer \<Rightarrow> nat option \<times> bool \<times> bool" where
  "getTileset m l = getTileset_loop (DecodedTiles l) None"

text \<open>
  The loop of \<^verbatim>\<open>Read\<close> over \<^verbatim>\<open>layers\<close>. Its state is the map \<^verbatim>\<open>out\<close> and the slice
  \<^verbatim>\<open>layers\<close>; \<^verbatim>\<open>l := layers[i]\<close> copies the struct into a variable of the iteration,
  and the assignment \<^verbatim>\<open>l.Empty, l.Tileset = isEmpty, tileset\<close> changes that copy.
\<close>

function Read_loop ::
  "'a Map_scheme \<Rightarrow> DecodedLayer list \<Rightarrow> nat \<Rightarrow> 'a Map_scheme \<times> DecodedLayer list"
where
  "Read_loop out layers i =
     (if i < length layers then
        (let l = layers ! i;
             (tileset, isEmpty, usesMultipleTilesets) = getTileset out l
         in if usesMultipleTilesets then Read_loop out layers (i + 1)
            else (let l = l\<lparr>Empty := isEmpty, Tileset := tileset\<rparr>
                  in Read_loop out layers (i + 1)))
      else (out, layers))"
  by pat_completeness auto
termination
  by (relation "measure (\<lambda>(out, layers, i). length layers - i)") auto

declare Read_loop.simps [simp del]

text \<open>
  \<^verbatim>\<open>xml.NewDecoder(r).Decode(out)\<close> is the parameter \<open>xml_Decode\<close>: the map it fills
  in, or the message of its error.
\<close>

definition Read ::
  "'r stdlib \<Rightarrow> ('r \<Rightarrow> string + 'a Map_scheme) \<Rightarrow> 'r \<Rightarrow> error + 'a Map_scheme"
where
  "Read lib xml_Decode r =
     (case xml_Decode r of
        Inl err \<Rightarrow> Inl (LibraryError err)
      | Inr out \<Rightarrow>
          (case DecodedLayers lib out of
             Inl err \<Rightarrow> Inl err
           | Inr layers \<Rightarrow> Inr (fst (Read_loop out layers 0))))"

section \<open>Polygon.Decode\<close>

text \<open>
  \<^verbatim>\<open>strings.Split(s, sep)\<close> for a separator of one byte: the substrings between the
  occurrences of the separator, one more than there are occurrences. The second argument
  is the part read so far.
\<close>

fun Split_from :: "char \<Rightarrow> string \<Rightarrow> string \<Rightarrow> string list" where
  "Split_from sep cur [] = [cur]"
| "Split_from sep cur (c # cs) =
     (if c = sep then cur # Split_from sep [] cs else Split_from sep (cur @ [c]) cs)"

definition Split :: "string \<Rightarrow> char \<Rightarrow> string list" where
  "Split s sep = Split_from sep [] s"

text \<open>
  \<^verbatim>\<open>strconv.Atoi\<close> belongs to the standard library. It is modelled after
  \<^verbatim>\<open>strconv.ParseInt(s, 10, 0)\<close> on a 64-bit platform: an optional sign, then at least
  one decimal digit and nothing else; \<^verbatim>\<open>ErrSyntax\<close> otherwise, \<^verbatim>\<open>ErrRange\<close> when the
  value does not fit 64 bits. The loop is the one of \<^verbatim>\<open>ParseUint\<close> on a
  \<^verbatim>\<open>uint64\<close>, which tests the range digit by digit; its cutoff is
  \<^verbatim>\<open>maxUint64/10 + 1\<close>.
\<close>

datatype num_error = ErrSyntax | ErrRange

fun ParseUint_loop :: "string \<Rightarrow> 64 word \<Rightarrow> num_error + 64 word" where
  "ParseUint_loop [] n = Inr n"
| "ParseUint_loop (c # cs) n =
     (let b = (of_char c :: byte)
      in if \<not> (48 \<le> b \<and> b \<le> 57) then Inl ErrSyntax
         else if n \<ge> 1844674407370955162 then Inl ErrRange
         else (let n10 = n * 10;
                   n1 = n10 + ucast (b - 48)
               in if n1 < n10 then Inl ErrRange else ParseUint_loop cs n1))"

definition Atoi :: "string \<Rightarrow> error + go_int" where
  "Atoi s =
     (if s = [] then Inl (NumErrSyntax s)
      else (let neg = (hd s = CHR ''-'');
                digits = (if hd s = CHR ''+'' \<or> hd s = CHR ''-'' then tl s else s)
            in if digits = [] then Inl (NumErrSyntax s)
               else (case ParseUint_loop digits 0 of
                       Inl ErrSyntax \<Rightarrow> Inl (NumErrSyntax s)
                     | Inl ErrRange \<Rightarrow> Inl (NumErrRange s)
                     | Inr un \<Rightarrow>
                         if \<not> neg \<and> un \<ge> 2 ^ 63 then Inl (NumErrRange s)
                         else if neg \<and> un > 2 ^ 63 then Inl (NumErrRange s)
                         else Inr (if neg then - un else un))))"

record Polygon =
  Points :: string

record Point =
  X :: go_int
  Y :: go_int

text \<open>
  The loop \<^verbatim>\<open>for i, part := range parts\<close>, from the index \<open>i\<close> on, over the parts
  still to read; \<^verbatim>\<open>out\<close> has the length of \<^verbatim>\<open>parts\<close>, so \<^verbatim>\<open>out[i]\<close> is in range.
\<close>

fun Polygon_Decode_loop :: "string list \<Rightarrow> nat \<Rightarrow> Point list \<Rightarrow> error + Point list" where
  "Polygon_Decode_loop [] i out = Inr out"
| "Polygon_Decode_loop (part # parts) i out =
     (let coords = Split part CHR '',''
      in if length coords \<noteq> 2 then Inl ErrInvalidPointsField
         else (case Atoi (coords ! 0) of
                 Inl err \<Rightarrow> Inl err
               | Inr x \<Rightarrow>
                   (case Atoi (coords ! 1) of
                      Inl err \<Rightarrow> Inl err
                    | Inr y \<Rightarrow>
                        Polygon_Decode_loop parts (i + 1) (out[i := \<lparr>X = x, Y = y\<rparr>]))))"

definition Polygon_Decode :: "Polygon \<Rightarrow> error + Point list" where
  "Polygon_Decode p =
     (let parts = Split (Points p) CHR '' '';
          out = replicate (length parts) \<lparr>X = 0, Y = 0\<rparr>
      in Polygon_Decode_loop parts 0 out)"

section \<open>The words of the specification about the tile decoder\<close>

text \<open>
  Not translated from the source: the RID that the specification assigns to the \<open>k\<close>-th
  consecutive 4-byte group of the decompressed bytes,
  \<open>b0 | b1<<8 | b2<<16 | b3<<24\<close>.
\<close>

definition rid_at :: "byte list \<Rightarrow> nat \<Rightarrow> GID" where
  "rid_at bs k =
     ucast (bs ! (4 * k)) OR push_bit 8 (ucast (bs ! (4 * k + 1))) OR
     push_bit 16 (ucast (bs ! (4 * k + 2))) OR push_bit 24 (ucast (bs ! (4 * k + 3)))"

section \<open>The words of the specification about the polygon decoder\<close>

text \<open>
  These two predicates are not translated from the source. In the words of the
  specification: a part yields a point when it splits on the comma into exactly two
  substrings that both parse as integers; a part fails with \<open>ErrInvalidPointsField\<close>
  when it does not split into exactly two substrings, and otherwise with the parse error
  of its first substring that does not parse.
\<close>

definition part_point :: "string \<Rightarrow> Point \<Rightarrow> bool" where
  "part_point part pt =
     (\<exists>a b x y. Split part CHR '','' = [a, b] \<and> Atoi a = Inr x \<and> Atoi b = Inr y \<and>
        pt = \<lparr>X = x, Y = y\<rparr>)"

definition part_fails :: "string \<Rightarrow> error \<Rightarrow> bool" where
  "part_fails part e =
     ((length (Split part CHR '','') \<noteq> 2 \<and> e = ErrInvalidPointsField) \<or>
      (\<exists>a b. Split part CHR '','' = [a, b] \<and>
         (Atoi a = Inl e \<or> (\<exists>x. Atoi a = Inr x \<and> Atoi b = Inl e))))"

section \<open>The words of the specification about the orchestrator\<close>

text \<open>
  These three predicates are not translated from the source. They state, in the words of
  the specification, what it means that every RID of a sequence resolves, that a layer
  decodes and all its RIDs resolve, and that a layer fails with an error: either its
  decoding fails, or the first RID, in sequence order, that does not resolve fails with
  that error.
\<close>

definition resolves :: "'a Map_scheme \<Rightarrow> GID list \<Rightarrow> DecodedTile list \<Rightarrow> bool" where
  "resolves m gids tiles = list_all2 (\<lambda>gid t. DecodeGID m gid = Inr t) gids tiles"

definition layer_decodes :: "'r stdlib \<Rightarrow> 'a Map_scheme \<Rightarrow> Layer \<Rightarrow> DecodedLayer \<Rightarrow> bool" where
  "layer_decodes lib m l d =
     (\<exists>gids tiles. Layer_Decode lib l = Inr gids \<and> resolves m gids tiles \<and>
        d = \<lparr>DecodedTiles = tiles, Tileset = None, Empty = False\<rparr>)"

definition layer_fails :: "'r stdlib \<Rightarrow> 'a Map_scheme \<Rightarrow> Layer \<Rightarrow> error \<Rightarrow> bool" where
  "layer_fails lib m l e =
     (Layer_Decode lib l = Inl e \<or>
      (\<exists>gids pre gid post tiles. Layer_Decode lib l = Inr gids \<and> gids = pre @ gid # post \<and>
         resolves m pre tiles \<and> DecodeGID m gid = Inl e))"

text \<open>
  A decoded tile sequence: every tile is the empty sentinel or carries the tileset it was
  resolved to, as the tiles that \<^verbatim>\<open>DecodeGID\<close> returns do.
\<close>

definition decoded_tiles :: "DecodedTile list \<Rightarrow> bool" where
  "decoded_tiles tiles =
     list_all (\<lambda>t. Nil_f t \<or> DecodedTile.Tileset t \<noteq> None) tiles"

section \<open>A library instance for the concrete examples\<close>

text \<open>
  A library whose readers are byte lists, whose gzip stream yields the bytes \<open>out\<close>
  whatever the payload, and whose zlib reader rejects the header of every payload.
\<close>

definition stub_lib :: "byte list \<Rightarrow> byte list stdlib" where
  "stub_lib out =
     \<lparr>bytes_TrimSpace = (\<lambda>b. b), base64_NewDecoder = (\<lambda>b. b),
      gzip_NewReader = (\<lambda>r. Inr r), zlib_NewReader = (\<lambda>r. Inl ''zlib: invalid header''),
      ioutil_ReadAll = (\<lambda>r. Inr out)\<rparr>"

section \<open>Properties of Map.DecodeGID\<close>

lemma flip_bits:
  "(gid AND GIDHorizontalFlip \<noteq> 0) = bit gid 31"
  "(gid AND GIDVerticalFlip \<noteq> 0) = bit gid 30"
  "(gid AND GIDDiagonalFlip \<noteq> 0) = bit gid 29"
  using bit_iff_and_push_bit_not_eq_0 [of gid 31] bit_iff_and_push_bit_not_eq_0 [of gid 30]
    bit_iff_and_push_bit_not_eq_0 [of gid 29]
  by (simp_all add: GIDHorizontalFlip_def GIDVerticalFlip_def GIDDiagonalFlip_def)

lemma unmasked_low29: "gid AND NOT GIDFlip = take_bit 29 (gid :: GID)"
proof -
  have "NOT GIDFlip = mask 29"
    by (simp add: GIDFlip_def GIDHorizontalFlip_def GIDVerticalFlip_def
        GIDDiagonalFlip_def mask_eq_exp_minus_1)
  then show ?thesis by (simp add: take_bit_eq_mask)
qed

lemma DecodeGID_scan_miss:
  "(\<forall>k<n. \<not> FirstGID (ts ! k) \<le> u) \<Longrightarrow> DecodeGID_scan ts gid u n = Inl ErrInvalidGID"
  by (induction n) simp_all

lemma DecodeGID_scan_hit:
  assumes "i < n" and "FirstGID (ts ! i) \<le> u"
    and "\<forall>k. i < k \<and> k < n \<longrightarrow> \<not> FirstGID (ts ! k) \<le> u"
  shows "DecodeGID_scan ts gid u n =
     Inr \<lparr>ID = u - FirstGID (ts ! i), Tileset = Some i,
          HorizontalFlip = bit gid 31, VerticalFlip = bit gid 30,
          DiagonalFlip = bit gid 29, Nil_f = False\<rparr>"
  using assms
proof (induction n)
  case 0
  then show ?case by simp
next
  case (Suc n)
  show ?case
  proof (cases "i = n")
    case True
    with Suc.prems show ?thesis by (simp add: flip_bits)
  next
    case False
    with Suc.prems have "i < n" by simp
    moreover from Suc.prems False have "\<not> FirstGID (ts ! n) \<le> u" by simp
    moreover from Suc.prems have "\<forall>k. i < k \<and> k < n \<longrightarrow> \<not> FirstGID (ts ! k) \<le> u" by simp
    ultimately show ?thesis using Suc.IH Suc.prems(2) by simp
  qed
qed

lemma DecodeGID_zero: "DecodeGID m 0 = Inr NilTile"
  by (simp add: DecodeGID_def)

text \<open>
  Claim C1. Resolving RID 0 returns the empty sentinel tile and succeeds. For a nonzero RID
  \<open>gid\<close> the masked identifier is \<open>gid\<close> with the three flip bits cleared; the
  tilesets are scanned from last to first, so the tileset returned is the one of greatest
  index \<open>i\<close> whose \<open>FirstGID\<close> is at most the masked identifier; the local index
  is the masked identifier minus that \<open>FirstGID\<close>, and the three flags are bits 31, 30
  and 29 of \<open>gid\<close> itself, whichever tileset matched. When no tileset qualifies the
  result is \<open>ErrInvalidGID\<close>. For the tilesets with first identifiers 1 and 5, RID 4
  resolves to the first tileset with local index 3 and RID 5 to the second with local
  index 0.
\<close>

theorem DecodeGID_contract:
  "DecodeGID m 0 = Inr NilTile \<and>
   (gid \<noteq> 0 \<and> i < length (Tilesets m) \<and>
    FirstGID (Tilesets m ! i) \<le> gid AND NOT GIDFlip \<and>
    (\<forall>k. i < k \<and> k < length (Tilesets m) \<longrightarrow>
         \<not> FirstGID (Tilesets m ! k) \<le> gid AND NOT GIDFlip) \<longrightarrow>
    DecodeGID m gid =
      Inr \<lparr>ID = (gid AND NOT GIDFlip) - FirstGID (Tilesets m ! i), Tileset = Some i,
           HorizontalFlip = bit gid 31, VerticalFlip = bit gid 30,
           DiagonalFlip = bit gid 29, Nil_f = False\<rparr>) \<and>
   (gid \<noteq> 0 \<and>
    (\<forall>k<length (Tilesets m). \<not> FirstGID (Tilesets m ! k) \<le> gid AND NOT GIDFlip) \<longrightarrow>
    DecodeGID m gid = Inl ErrInvalidGID) \<and>
   DecodeGID \<lparr>Tilesets = [\<lparr>FirstGID = 1\<rparr>, \<lparr>FirstGID = 5\<rparr>], Layers = []\<rparr> 4 =
      Inr \<lparr>ID = 3, Tileset = Some 0, HorizontalFlip = False, VerticalFlip = False,
           DiagonalFlip = False, Nil_f = False\<rparr> \<and>
   DecodeGID \<lparr>Tilesets = [\<lparr>FirstGID = 1\<rparr>, \<lparr>FirstGID = 5\<rparr>], Layers = []\<rparr> 5 =
      Inr \<lparr>ID = 0, Tileset = Some 1, HorizontalFlip = False, VerticalFlip = False,
           DiagonalFlip = False, Nil_f = False\<rparr>"
proof (intro conjI impI)
  show "DecodeGID m 0 = Inr NilTile" by (rule DecodeGID_zero)
next
  assume "gid \<noteq> 0 \<and> i < length (Tilesets m) \<and>
    FirstGID (Tilesets m ! i) \<le> gid AND NOT GIDFlip \<and>
    (\<forall>k. i < k \<and> k < length (Tilesets m) \<longrightarrow>
         \<not> FirstGID (Tilesets m ! k) \<le> gid AND NOT GIDFlip)"
  then show "DecodeGID m gid =
      Inr \<lparr>ID = (gid AND NOT GIDFlip) - FirstGID (Tilesets m ! i), Tileset = Some i,
           HorizontalFlip = bit gid 31, VerticalFlip = bit gid 30,
           DiagonalFlip = bit gid 29, Nil_f = False\<rparr>"
    by (simp add: DecodeGID_def DecodeGID_scan_hit)
next
  assume "gid \<noteq> 0 \<and>
    (\<forall>k<length (Tilesets m). \<not> FirstGID (Tilesets m ! k) \<le> gid AND NOT GIDFlip)"
  then show "DecodeGID m gid = Inl ErrInvalidGID"
    by (simp add: DecodeGID_def DecodeGID_scan_miss)
next
  show "DecodeGID \<lparr>Tilesets = [\<lparr>FirstGID = 1\<rparr>, \<lparr>FirstGID = 5\<rparr>], Layers = []\<rparr> 4 =
      Inr \<lparr>ID = 3, Tileset = Some 0, HorizontalFlip = False, VerticalFlip = False,
           DiagonalFlip = False, Nil_f = False\<rparr>"
    by code_simp
next
  show "DecodeGID \<lparr>Tilesets = [\<lparr>FirstGID = 1\<rparr>, \<lparr>FirstGID = 5\<rparr>], Layers = []\<rparr> 5 =
      Inr \<lparr>ID = 0, Tileset = Some 1, HorizontalFlip = False, VerticalFlip = False,
           DiagonalFlip = False, Nil_f = False\<rparr>"
    by code_simp
qed

theorem DecodeGID_contract_witness:
  "(0x80000007 :: GID) \<noteq> 0 \<and>
   (1::nat) < length (Tilesets \<lparr>Tilesets = [\<lparr>FirstGID = 1\<rparr>, \<lparr>FirstGID = 5\<rparr>], Layers = []\<rparr>) \<and>
   FirstGID (Tilesets \<lparr>Tilesets = [\<lparr>FirstGID = 1\<rparr>, \<lparr>FirstGID = 5\<rparr>], Layers = []\<rparr> ! 1)
     \<le> 0x80000007 AND NOT GIDFlip \<and>
   DecodeGID \<lparr>Tilesets = [\<lparr>FirstGID = 1\<rparr>, \<lparr>FirstGID = 5\<rparr>], Layers = []\<rparr> 0x80000007 =
     Inr \<lparr>ID = 2, Tileset = Some 1, HorizontalFlip = True, VerticalFlip = False,
          DiagonalFlip = False, Nil_f = False\<rparr> \<and>
   (3 :: GID) \<noteq> 0 \<and>
   \<not> FirstGID (Tilesets \<lparr>Tilesets = [\<lparr>FirstGID = 5\<rparr>], Layers = []\<rparr> ! 0) \<le> 3 AND NOT GIDFlip \<and>
   DecodeGID \<lparr>Tilesets = [\<lparr>FirstGID = 5\<rparr>], Layers = []\<rparr> 3 = Inl ErrInvalidGID"
  using DecodeGID_contract [of "\<lparr>Tilesets = [\<lparr>FirstGID = 1\<rparr>, \<lparr>FirstGID = 5\<rparr>], Layers = []\<rparr>" "0x80000007" 1]
    DecodeGID_contract [of "\<lparr>Tilesets = [\<lparr>FirstGID = 5\<rparr>], Layers = []\<rparr>" 3 0]
  by (simp add: unmasked_low29)

text \<open>
  Claim C4. The identifier used for the range lookup and for the local index is the one
  computed by \<^verbatim>\<open>gid &^ GIDFlip\<close>: the low 29 bits of the RID, bit 28 included. The
  constant \<open>GIDMask\<close> (the low 28 bits) is declared by the package and used nowhere.
  For the single tileset with first identifier 1 and the RID \<open>0x10000001\<close>, whose low
  28 bits are 1, the lookup value is \<open>0x10000001\<close> and the local index is
  \<open>0x10000000\<close>, where the low 28 bits would give the local index 0.
\<close>

theorem DecodeGID_keeps_bit_28:
  "DecodeGID \<lparr>Tilesets = [\<lparr>FirstGID = 1\<rparr>], Layers = []\<rparr> 0x10000001 =
     Inr \<lparr>ID = 0x10000000, Tileset = Some 0, HorizontalFlip = False, VerticalFlip = False,
          DiagonalFlip = False, Nil_f = False\<rparr> \<and>
   (0x10000001 :: GID) AND NOT GIDFlip = 0x10000001 \<and>
   (0x10000001 :: GID) AND GIDMask = 1 \<and>
   DecodeGID \<lparr>Tilesets = [\<lparr>FirstGID = 1\<rparr>], Layers = []\<rparr> 1 =
     Inr \<lparr>ID = 0, Tileset = Some 0, HorizontalFlip = False, VerticalFlip = False,
          DiagonalFlip = False, Nil_f = False\<rparr>"
  by code_simp

section \<open>Properties of Data.decodeBytes and Layer.Decode\<close>

lemma sint_add64:
  "- (2 ^ 63) \<le> sint a + sint b \<Longrightarrow> sint a + sint b < 2 ^ 63 \<Longrightarrow>
   sint (a + b :: go_int) = sint a + sint b"
  by (simp add: sint_word_ariths signed_take_bit_int_eq_self)

lemma sint_mult64:
  "- (2 ^ 63) \<le> sint a * sint b \<Longrightarrow> sint a * sint b < 2 ^ 63 \<Longrightarrow>
   sint (a * b :: go_int) = sint a * sint b"
  by (simp add: sint_word_ariths signed_take_bit_int_eq_self)

lemma sint_bounds64: "- (2 ^ 63) \<le> sint (a :: go_int)" "sint (a :: go_int) < 2 ^ 63"
  using sint_ge [of a] sint_lt [of a] by simp_all

lemma sint_Suc64: "sint (x :: go_int) < sint (W :: go_int) \<Longrightarrow> sint (x + 1) = sint x + 1"
  using sint_bounds64 [of x] sint_bounds64 [of W] by (simp add: sint_add64)


lemma decodeBytes_default:
  "Compression d \<noteq> Gzip \<Longrightarrow> Compression d \<noteq> Zlib \<Longrightarrow>
   decodeBytes lib d = Inl ErrUnsupportedCompression"
  by (simp add: decodeBytes_def)

lemma decodeBytes_errors:
  "decodeBytes lib d = Inl e \<Longrightarrow> e = ErrUnsupportedCompression \<or> (\<exists>msg. e = LibraryError msg)"
  by (auto simp: decodeBytes_def Let_def split: if_splits sum.splits)

text \<open>
  Claim C7. For every layer whose compression tag is neither \<open>gzip\<close> nor \<open>zlib\<close>,
  \<^verbatim>\<open>Layer.Decode\<close> fails with \<open>ErrUnsupportedCompression\<close>, whatever the library does and
  whatever the payload, the width and the height are; this holds for the empty tag (the
  constant \<open>Uncompressed\<close>) and for the tag \<open>uncompressed\<close>.
\<close>

theorem Decode_unsupported_compression:
  "(Compression (Data l) \<noteq> Gzip \<and> Compression (Data l) \<noteq> Zlib \<longrightarrow>
      Layer_Decode lib l = Inl ErrUnsupportedCompression) \<and>
   Layer_Decode lib \<lparr>Width = w, Height = h,
      Data = \<lparr>Encoding = enc, Compression = Uncompressed, Bytes = bs\<rparr>\<rparr>
     = Inl ErrUnsupportedCompression \<and>
   Layer_Decode lib \<lparr>Width = w, Height = h,
      Data = \<lparr>Encoding = enc, Compression = ''uncompressed'', Bytes = bs\<rparr>\<rparr>
     = Inl ErrUnsupportedCompression"
  by (simp add: Layer_Decode_def decodeBytes_default Gzip_def Zlib_def Uncompressed_def)

theorem Decode_unsupported_compression_witness:
  "Compression (Data \<lparr>Width = 1, Height = 1,
      Data = \<lparr>Encoding = Base64, Compression = ''bzip2'', Bytes = []\<rparr>\<rparr>) \<noteq> Gzip \<and>
   Compression (Data \<lparr>Width = 1, Height = 1,
      Data = \<lparr>Encoding = Base64, Compression = ''bzip2'', Bytes = []\<rparr>\<rparr>) \<noteq> Zlib \<and>
   Layer_Decode (stub_lib [1, 0, 0, 0]) \<lparr>Width = 1, Height = 1,
      Data = \<lparr>Encoding = Base64, Compression = ''bzip2'', Bytes = []\<rparr>\<rparr>
     = Inl ErrUnsupportedCompression"
  using Decode_unsupported_compression [of "\<lparr>Width = 1, Height = 1,
      Data = \<lparr>Encoding = Base64, Compression = ''bzip2'', Bytes = []\<rparr>\<rparr>" "stub_lib [1, 0, 0, 0]"]
  by (simp add: Gzip_def Zlib_def)

lemma sint_area64:
  assumes "- (2 ^ 63) \<le> sint W * sint H * 4" and "sint W * sint H * 4 < 2 ^ 63"
  shows "sint (W * H * 4 :: go_int) = sint W * sint H * 4"
proof -
  define n where "n = sint W * sint H"
  from assms have b4: "- (2 ^ 63) \<le> n * 4" "n * 4 < 2 ^ 63" by (simp_all only: n_def)
  then have b: "- (2 ^ 63) \<le> n" "n < 2 ^ 63" by simp_all
  have wh: "sint (W * H) = n"
    using sint_mult64 [of W H] b unfolding n_def by blast
  have s4: "sint (4 :: go_int) = 4" by simp
  have "sint (W * H * 4) = n * 4"
    using sint_mult64 [of "W * H" 4] b4 unfolding wh s4 by blast
  then show ?thesis by (simp only: n_def)
qed

text \<open>
  Where the length check of \<^verbatim>\<open>Layer.Decode\<close> does reject. When the payload decodes and
  decompresses to \<open>dataBytes\<close> and the length of \<open>dataBytes\<close> differs from
  \<^verbatim>\<open>l.Width*l.Height*4\<close>, the product as the program computes it in Go's \<^verbatim>\<open>int\<close>,
  the result is \<open>ErrInvalidDecodedDataLen\<close>. That product is the product of the
  integers width, height and 4 whenever the latter fits Go's \<^verbatim>\<open>int\<close>. A payload
  whose length is one less than the product of the integers is rejected for every width
  and height.
\<close>

lemma Decode_length_mismatch:
  "(decodeBytes lib (Data l) = Inr dataBytes \<and>
    int (length dataBytes) \<noteq> sint (Width l * Height l * 4) \<longrightarrow>
      Layer_Decode lib l = Inl ErrInvalidDecodedDataLen) \<and>
   (decodeBytes lib (Data l) = Inr dataBytes \<and>
    - (2 ^ 63) \<le> sint (Width l) * sint (Height l) * 4 \<and>
    sint (Width l) * sint (Height l) * 4 < 2 ^ 63 \<and>
    int (length dataBytes) \<noteq> sint (Width l) * sint (Height l) * 4 \<longrightarrow>
      Layer_Decode lib l = Inl ErrInvalidDecodedDataLen) \<and>
   (decodeBytes lib (Data l) = Inr dataBytes \<and>
    int (length dataBytes) = sint (Width l) * sint (Height l) * 4 - 1 \<and>
    int (length dataBytes) \<le> maxAlloc \<longrightarrow>
      Layer_Decode lib l = Inl ErrInvalidDecodedDataLen)"
proof (intro conjI impI)
  assume "decodeBytes lib (Data l) = Inr dataBytes \<and>
    int (length dataBytes) \<noteq> sint (Width l * Height l * 4)"
  then show "Layer_Decode lib l = Inl ErrInvalidDecodedDataLen"
    by (simp add: Layer_Decode_def)
next
  assume h: "decodeBytes lib (Data l) = Inr dataBytes \<and>
    - (2 ^ 63) \<le> sint (Width l) * sint (Height l) * 4 \<and>
    sint (Width l) * sint (Height l) * 4 < 2 ^ 63 \<and>
    int (length dataBytes) \<noteq> sint (Width l) * sint (Height l) * 4"
  then have "sint (Width l * Height l * 4) = sint (Width l) * sint (Height l) * 4"
    by (intro sint_area64) simp_all
  with h show "Layer_Decode lib l = Inl ErrInvalidDecodedDataLen"
    by (simp add: Layer_Decode_def)
next
  assume h: "decodeBytes lib (Data l) = Inr dataBytes \<and>
    int (length dataBytes) = sint (Width l) * sint (Height l) * 4 - 1 \<and>
    int (length dataBytes) \<le> maxAlloc"
  define a where "a = sint (Width l) * sint (Height l) * 4"
  from h have "int (length dataBytes) = a - 1" "int (length dataBytes) \<le> 2 ^ 48"
    unfolding a_def maxAlloc_def by blast+
  then have "- (2 ^ 63) \<le> a" "a < 2 ^ 63" "int (length dataBytes) \<noteq> a" by simp_all
  then have b: "- (2 ^ 63) \<le> sint (Width l) * sint (Height l) * 4"
    "sint (Width l) * sint (Height l) * 4 < 2 ^ 63"
    "int (length dataBytes) \<noteq> sint (Width l) * sint (Height l) * 4"
    unfolding a_def by blast+
  from b(1,2) have "sint (Width l * Height l * 4) = sint (Width l) * sint (Height l) * 4"
    by (rule sint_area64)
  with h b(3) show "Layer_Decode lib l = Inl ErrInvalidDecodedDataLen"
    by (simp add: Layer_Decode_def)
qed

lemma Decode_length_mismatch_example:
  "decodeBytes (stub_lib [1, 0, 0, 0, 2, 0, 0])
      (Data \<lparr>Width = 2, Height = 1,
         Data = \<lparr>Encoding = Base64, Compression = Gzip, Bytes = []\<rparr>\<rparr>)
     = Inr [1, 0, 0, 0, 2, 0, 0] \<and>
   int (length [1, 0, 0, 0, 2, 0, 0 :: byte]) = sint (2 :: go_int) * sint (1 :: go_int) * 4 - 1 \<and>
   int (length [1, 0, 0, 0, 2, 0, 0 :: byte]) \<noteq> sint (2 * 1 * 4 :: go_int) \<and>
   Layer_Decode (stub_lib [1, 0, 0, 0, 2, 0, 0])
      \<lparr>Width = 2, Height = 1, Data = \<lparr>Encoding = Base64, Compression = Gzip, Bytes = []\<rparr>\<rparr>
     = Inl ErrInvalidDecodedDataLen"
  using Decode_length_mismatch [of "stub_lib [1, 0, 0, 0, 2, 0, 0]"
      "\<lparr>Width = 2, Height = 1, Data = \<lparr>Encoding = Base64, Compression = Gzip, Bytes = []\<rparr>\<rparr>"
      "[1, 0, 0, 0, 2, 0, 0]"]
  by (simp add: decodeBytes_def stub_lib_def Gzip_def)

text \<open>
  Claim C8. \<^verbatim>\<open>Layer.Decode\<close> compares the length of the decompressed bytes with
  \<^verbatim>\<open>l.Width*l.Height*4\<close> computed in Go's \<^verbatim>\<open>int\<close>, which wraps around. For the
  width \<open>2 ^ 62\<close>, the height 1 and an empty payload the length 0 differs from the
  product \<open>2 ^ 64\<close> of the integers, but the wrapped product is 0: the check passes
  and \<^verbatim>\<open>make\<close> panics. For the width \<open>- (2 ^ 63)\<close>, the height 2 and an empty
  payload the length 0 differs from the product \<open>- (2 ^ 66)\<close>, the wrapped product is
  0 again, and \<^verbatim>\<open>Layer.Decode\<close> succeeds with no RID. In neither case is the result
  \<open>ErrInvalidDecodedDataLen\<close>.
\<close>

theorem Decode_length_check_wraps:
  "decodeBytes (stub_lib [])
     (Data \<lparr>Width = 4611686018427387904, Height = 1,
        Data = \<lparr>Encoding = Base64, Compression = Gzip, Bytes = []\<rparr>\<rparr>) = Inr [] \<and>
   int (length ([] :: byte list)) \<noteq>
     sint (4611686018427387904 :: go_int) * sint (1 :: go_int) * 4 \<and>
   sint (4611686018427387904 * 1 * 4 :: go_int) = 0 \<and>
   Layer_Decode (stub_lib [])
     \<lparr>Width = 4611686018427387904, Height = 1,
      Data = \<lparr>Encoding = Base64, Compression = Gzip, Bytes = []\<rparr>\<rparr> = Inl Panic \<and>
   int (length ([] :: byte list)) \<noteq>
     sint (- 9223372036854775808 :: go_int) * sint (2 :: go_int) * 4 \<and>
   sint (- 9223372036854775808 * 2 * 4 :: go_int) = 0 \<and>
   Layer_Decode (stub_lib [])
     \<lparr>Width = - 9223372036854775808, Height = 2,
      Data = \<lparr>Encoding = Base64, Compression = Gzip, Bytes = []\<rparr>\<rparr> = Inr []"
proof (intro conjI)
  show "decodeBytes (stub_lib [])
     (Data \<lparr>Width = 4611686018427387904, Height = 1,
        Data = \<lparr>Encoding = Base64, Compression = Gzip, Bytes = []\<rparr>\<rparr>) = Inr []"
    by (simp add: decodeBytes_def stub_lib_def Gzip_def)
  show "int (length ([] :: byte list)) \<noteq>
     sint (4611686018427387904 :: go_int) * sint (1 :: go_int) * 4"
    by simp
  show "sint (4611686018427387904 * 1 * 4 :: go_int) = 0"
    by simp
  show "Layer_Decode (stub_lib [])
     \<lparr>Width = 4611686018427387904, Height = 1,
      Data = \<lparr>Encoding = Base64, Compression = Gzip, Bytes = []\<rparr>\<rparr> = Inl Panic"
    by (simp add: Layer_Decode_def decodeBytes_def stub_lib_def Gzip_def make_GIDs_def
        maxAlloc_def)
  show "int (length ([] :: byte list)) \<noteq>
     sint (- 9223372036854775808 :: go_int) * sint (2 :: go_int) * 4"
    by simp
  show "sint (- 9223372036854775808 * 2 * 4 :: go_int) = 0"
    by simp
  show "Layer_Decode (stub_lib [])
     \<lparr>Width = - 9223372036854775808, Height = 2,
      Data = \<lparr>Encoding = Base64, Compression = Gzip, Bytes = []\<rparr>\<rparr> = Inr []"
    by (simp add: Layer_Decode_def decodeBytes_def stub_lib_def Gzip_def make_GIDs_def
        maxAlloc_def Decode_rows.simps Decode_row.simps)
qed

lemma Decode_row_errors: "Decode_row dataBytes W y x st = Inl e \<Longrightarrow> e = Panic"
proof (induction dataBytes W y x st rule: Decode_row.induct)
  case (1 dataBytes W y x j gids)
  from "1.prems" show ?case
    by (subst (asm) Decode_row.simps) (auto split: if_splits simp: Let_def dest: "1.IH")
qed

lemma Decode_rows_errors: "Decode_rows dataBytes W H y st = Inl e \<Longrightarrow> e = Panic"
proof (induction dataBytes W H y st rule: Decode_rows.induct)
  case (1 dataBytes W H y st)
  from "1.prems" show ?case
    by (subst (asm) Decode_rows.simps)
      (auto split: if_splits sum.splits dest: Decode_row_errors "1.IH")
qed

lemma Layer_Decode_errors:
  "Layer_Decode lib l = Inl e \<Longrightarrow>
   e = ErrUnsupportedCompression \<or> e = ErrInvalidDecodedDataLen \<or> e = Panic \<or>
   (\<exists>msg. e = LibraryError msg)"
  by (auto simp: Layer_Decode_def make_GIDs_def
      split: sum.splits if_splits prod.splits
      dest: decodeBytes_errors Decode_rows_errors)

text \<open>
  Claim C3. \<^verbatim>\<open>Layer.Decode\<close> does not read the declared encoding: for the layer declared
  \<open>csv\<close> with no compression tag (what a CSV layer of a document looks like) it fails
  with \<open>ErrUnsupportedCompression\<close>; for a layer declared \<open>csv\<close> whose gzip stream
  yields the four bytes of RID 300 it succeeds; and \<open>ErrUnsupportedEncoding\<close> is the
  result for no library and no layer.
\<close>

theorem Decode_ignores_Encoding:
  "Layer_Decode lib \<lparr>Width = w, Height = h,
      Data = \<lparr>Encoding = CSV, Compression = Uncompressed, Bytes = bs\<rparr>\<rparr>
     = Inl ErrUnsupportedCompression \<and>
   Layer_Decode (stub_lib [0x2C, 1, 0, 0]) \<lparr>Width = 1, Height = 1,
      Data = \<lparr>Encoding = CSV, Compression = Gzip, Bytes = []\<rparr>\<rparr> = Inr [300] \<and>
   Layer_Decode lib' l \<noteq> Inl ErrUnsupportedEncoding"
proof (intro conjI)
  show "Layer_Decode lib \<lparr>Width = w, Height = h,
      Data = \<lparr>Encoding = CSV, Compression = Uncompressed, Bytes = bs\<rparr>\<rparr>
     = Inl ErrUnsupportedCompression"
    by (simp add: Layer_Decode_def decodeBytes_default Gzip_def Zlib_def Uncompressed_def)
  show "Layer_Decode (stub_lib [0x2C, 1, 0, 0]) \<lparr>Width = 1, Height = 1,
      Data = \<lparr>Encoding = CSV, Compression = Gzip, Bytes = []\<rparr>\<rparr> = Inr [300]"
    by (simp add: Layer_Decode_def decodeBytes_def stub_lib_def make_GIDs_def maxAlloc_def
        Decode_rows.simps Decode_row.simps in_range_def at_def CSV_def Gzip_def)
  show "Layer_Decode lib' l \<noteq> Inl ErrUnsupportedEncoding"
    using Layer_Decode_errors [of lib' l ErrUnsupportedEncoding] by auto
qed

section \<open>Properties of Map.DecodedLayers and Read\<close>

lemma DecodedLayers_tiles_ok:
  "resolves m gids tiles \<Longrightarrow>
   DecodedLayers_tiles m gids d = Inr (d\<lparr>DecodedTiles := DecodedTiles d @ tiles\<rparr>)"
  unfolding resolves_def
  by (induction gids tiles arbitrary: d rule: list_all2_induct) simp_all

lemma DecodedLayers_tiles_fail:
  "resolves m pre tiles \<Longrightarrow> DecodeGID m gid = Inl e \<Longrightarrow>
   DecodedLayers_tiles m (pre @ gid # post) d = Inl e"
  unfolding resolves_def
  by (induction pre tiles arbitrary: d rule: list_all2_induct) simp_all

lemma resolves_cases:
  "(\<exists>tiles. resolves m gids tiles) \<or>
   (\<exists>pre gid post tiles e. gids = pre @ gid # post \<and> resolves m pre tiles \<and>
      DecodeGID m gid = Inl e)"
proof (induction gids)
  case Nil
  then show ?case by (simp add: resolves_def)
next
  case (Cons g gids)
  show ?case
  proof (cases "DecodeGID m g")
    case (Inl e)
    then have "g # gids = [] @ g # gids \<and> resolves m [] [] \<and> DecodeGID m g = Inl e"
      by (simp add: resolves_def)
    then show ?thesis by blast
  next
    case (Inr t)
    from Cons.IH show ?thesis
    proof
      assume "\<exists>tiles. resolves m gids tiles"
      then obtain tiles where "resolves m gids tiles" ..
      with Inr have "resolves m (g # gids) (t # tiles)" by (simp add: resolves_def)
      then show ?thesis by blast
    next
      assume "\<exists>pre gid post tiles e. gids = pre @ gid # post \<and> resolves m pre tiles \<and>
        DecodeGID m gid = Inl e"
      then obtain pre gid post tiles e where
        h: "gids = pre @ gid # post" "resolves m pre tiles" "DecodeGID m gid = Inl e"
        by blast
      with Inr have "g # gids = (g # pre) @ gid # post \<and> resolves m (g # pre) (t # tiles) \<and>
        DecodeGID m gid = Inl e"
        by (simp add: resolves_def)
      then show ?thesis by blast
    qed
  qed
qed

lemma layer_cases: "(\<exists>d. layer_decodes lib m l d) \<or> (\<exists>e. layer_fails lib m l e)"
proof (cases "Layer_Decode lib l")
  case (Inl e)
  then show ?thesis by (auto simp: layer_fails_def)
next
  case (Inr gids)
  from resolves_cases [of m gids] show ?thesis
  proof
    assume "\<exists>tiles. resolves m gids tiles"
    with Inr show ?thesis unfolding layer_decodes_def by blast
  next
    assume "\<exists>pre gid post tiles e. gids = pre @ gid # post \<and> resolves m pre tiles \<and>
      DecodeGID m gid = Inl e"
    with Inr show ?thesis unfolding layer_fails_def by blast
  qed
qed

lemma layer_decodes_step:
  "layer_decodes lib m l d \<Longrightarrow>
   DecodedLayers_loop lib m (l # ls) out = DecodedLayers_loop lib m ls (out @ [d])"
  by (auto simp: layer_decodes_def DecodedLayers_tiles_ok)

lemma layer_fails_step:
  "layer_fails lib m l e \<Longrightarrow> DecodedLayers_loop lib m (l # ls) out = Inl e"
  by (auto simp: layer_fails_def DecodedLayers_tiles_fail)

lemma DecodedLayers_loop_ok:
  "list_all2 (layer_decodes lib m) ls ds \<Longrightarrow> DecodedLayers_loop lib m ls out = Inr (out @ ds)"
proof (induction ls ds arbitrary: out rule: list_all2_induct)
  case Nil
  then show ?case by simp
next
  case (Cons l ls d ds)
  then show ?case by (simp add: layer_decodes_step del: DecodedLayers_loop.simps)
qed

lemma DecodedLayers_loop_fail:
  "list_all2 (layer_decodes lib m) pre ds \<Longrightarrow> layer_fails lib m l e \<Longrightarrow>
   DecodedLayers_loop lib m (pre @ l # post) out = Inl e"
proof (induction pre ds arbitrary: out rule: list_all2_induct)
  case Nil
  then show ?case by (simp add: layer_fails_step del: DecodedLayers_loop.simps)
next
  case (Cons l' pre d ds)
  then show ?case by (simp add: layer_decodes_step del: DecodedLayers_loop.simps)
qed

lemma layers_cases:
  "(\<exists>ds. list_all2 (layer_decodes lib m) ls ds) \<or>
   (\<exists>pre l post ds e. ls = pre @ l # post \<and> list_all2 (layer_decodes lib m) pre ds \<and>
      layer_fails lib m l e)"
proof (induction ls)
  case Nil
  then show ?case by simp
next
  case (Cons l ls)
  from layer_cases [of lib m l] show ?case
  proof
    assume "\<exists>e. layer_fails lib m l e"
    then obtain e where "layer_fails lib m l e" ..
    then have "l # ls = [] @ l # ls \<and> list_all2 (layer_decodes lib m) [] [] \<and>
      layer_fails lib m l e" by simp
    then show ?thesis by blast
  next
    assume "\<exists>d. layer_decodes lib m l d"
    then obtain d where d: "layer_decodes lib m l d" ..
    from Cons.IH show ?thesis
    proof
      assume "\<exists>ds. list_all2 (layer_decodes lib m) ls ds"
      then obtain ds where "list_all2 (layer_decodes lib m) ls ds" ..
      with d have "list_all2 (layer_decodes lib m) (l # ls) (d # ds)" by simp
      then show ?thesis by blast
    next
      assume "\<exists>pre l' post ds e. ls = pre @ l' # post \<and>
        list_all2 (layer_decodes lib m) pre ds \<and> layer_fails lib m l' e"
      then obtain pre l' post ds e where
        h: "ls = pre @ l' # post" "list_all2 (layer_decodes lib m) pre ds"
          "layer_fails lib m l' e" by blast
      with d have "l # ls = (l # pre) @ l' # post \<and>
        list_all2 (layer_decodes lib m) (l # pre) (d # ds) \<and> layer_fails lib m l' e"
        by simp
      then show ?thesis by blast
    qed
  qed
qed

lemma DecodedLayers_Inr_D:
  assumes "DecodedLayers lib m = Inr ds"
  shows "list_all2 (layer_decodes lib m) (Layers m) ds"
proof -
  from layers_cases [of lib m "Layers m"] show ?thesis
  proof
    assume "\<exists>ds'. list_all2 (layer_decodes lib m) (Layers m) ds'"
    then obtain ds' where h: "list_all2 (layer_decodes lib m) (Layers m) ds'" ..
    from DecodedLayers_loop_ok [OF h, of "[]"] assms have "ds' = ds"
      by (simp add: DecodedLayers_def)
    with h show ?thesis by simp
  next
    assume "\<exists>pre l post ds' e. Layers m = pre @ l # post \<and>
      list_all2 (layer_decodes lib m) pre ds' \<and> layer_fails lib m l e"
    then obtain pre l post ds' e where
      h: "Layers m = pre @ l # post" "list_all2 (layer_decodes lib m) pre ds'"
        "layer_fails lib m l e" by blast
    from DecodedLayers_loop_fail [OF h(2) h(3), of post "[]"] h(1) assms show ?thesis
      by (simp add: DecodedLayers_def)
  qed
qed

lemma DecodedLayers_Inl_D:
  assumes "DecodedLayers lib m = Inl e"
  shows "\<exists>pre l post ds. Layers m = pre @ l # post \<and>
      list_all2 (layer_decodes lib m) pre ds \<and> layer_fails lib m l e"
proof -
  from layers_cases [of lib m "Layers m"] show ?thesis
  proof
    assume "\<exists>ds'. list_all2 (layer_decodes lib m) (Layers m) ds'"
    then obtain ds' where h: "list_all2 (layer_decodes lib m) (Layers m) ds'" ..
    from DecodedLayers_loop_ok [OF h, of "[]"] assms show ?thesis
      by (simp add: DecodedLayers_def)
  next
    assume "\<exists>pre l post ds' e. Layers m = pre @ l # post \<and>
      list_all2 (layer_decodes lib m) pre ds' \<and> layer_fails lib m l e"
    then obtain pre l post ds' e' where
      h: "Layers m = pre @ l # post" "list_all2 (layer_decodes lib m) pre ds'"
        "layer_fails lib m l e'" by blast
    from DecodedLayers_loop_fail [OF h(2) h(3), of post "[]"] h(1) assms have "e' = e"
      by (simp add: DecodedLayers_def)
    with h show ?thesis by blast
  qed
qed

text \<open>
  Claim C6. \<^verbatim>\<open>Map.DecodedLayers\<close> returns the complete sequence of decoded layers, one
  for each layer in document order, exactly when every layer decodes and every RID of it
  resolves. Otherwise it returns the error of the first layer, in document order, that
  fails (the error of its decoding, or of its first RID that does not resolve), and with
  the error no layer at all, however many layers before it were decoded.
\<close>

theorem DecodedLayers_atomic:
  "(list_all2 (layer_decodes lib m) (Layers m) ds \<longrightarrow> DecodedLayers lib m = Inr ds) \<and>
   (Layers m = pre @ l # post \<and> list_all2 (layer_decodes lib m) pre ds' \<and>
    layer_fails lib m l e \<longrightarrow> DecodedLayers lib m = Inl e) \<and>
   (DecodedLayers lib m = Inr ds \<longrightarrow> list_all2 (layer_decodes lib m) (Layers m) ds) \<and>
   (DecodedLayers lib m = Inl e \<longrightarrow>
      (\<exists>pre l post ds'. Layers m = pre @ l # post \<and>
         list_all2 (layer_decodes lib m) pre ds' \<and> layer_fails lib m l e))"
proof (intro conjI impI)
  assume "list_all2 (layer_decodes lib m) (Layers m) ds"
  from DecodedLayers_loop_ok [OF this, of "[]"] show "DecodedLayers lib m = Inr ds"
    by (simp add: DecodedLayers_def)
next
  assume h: "Layers m = pre @ l # post \<and> list_all2 (layer_decodes lib m) pre ds' \<and>
    layer_fails lib m l e"
  then have "DecodedLayers_loop lib m (pre @ l # post) [] = Inl e"
    by (blast intro: DecodedLayers_loop_fail)
  with h show "DecodedLayers lib m = Inl e" by (simp add: DecodedLayers_def)
next
  assume "DecodedLayers lib m = Inr ds"
  then show "list_all2 (layer_decodes lib m) (Layers m) ds" by (rule DecodedLayers_Inr_D)
next
  assume "DecodedLayers lib m = Inl e"
  then show "\<exists>pre l post ds'. Layers m = pre @ l # post \<and>
      list_all2 (layer_decodes lib m) pre ds' \<and> layer_fails lib m l e"
    by (rule DecodedLayers_Inl_D)
qed

lemma stub_Layer_Decode_1x1:
  "Layer_Decode (stub_lib [b0, b1, b2, b3])
     \<lparr>Width = 1, Height = 1, Data = \<lparr>Encoding = Base64, Compression = Gzip, Bytes = []\<rparr>\<rparr> =
   Inr [ucast b0 + push_bit 8 (ucast b1) + push_bit 16 (ucast b2) + push_bit 24 (ucast b3)]"
  by (simp add: Layer_Decode_def decodeBytes_def stub_lib_def make_GIDs_def maxAlloc_def
      Decode_rows.simps Decode_row.simps in_range_def at_def)

theorem DecodedLayers_atomic_witness:
  "DecodedLayers (stub_lib [5, 0, 0, 0])
     \<lparr>Tilesets = [\<lparr>FirstGID = 5\<rparr>],
      Layers = [\<lparr>Width = 1, Height = 1,
                 Data = \<lparr>Encoding = Base64, Compression = Gzip, Bytes = []\<rparr>\<rparr>]\<rparr> =
     Inr [\<lparr>DecodedTiles = [\<lparr>ID = 0, Tileset = Some 0, HorizontalFlip = False,
            VerticalFlip = False, DiagonalFlip = False, Nil_f = False\<rparr>],
          Tileset = None, Empty = False\<rparr>] \<and>
   DecodedLayers (stub_lib [5, 0, 0, 0])
     \<lparr>Tilesets = [\<lparr>FirstGID = 5\<rparr>],
      Layers = [\<lparr>Width = 1, Height = 1,
                 Data = \<lparr>Encoding = Base64, Compression = Gzip, Bytes = []\<rparr>\<rparr>,
                \<lparr>Width = 1, Height = 1,
                 Data = \<lparr>Encoding = Base64, Compression = Uncompressed, Bytes = []\<rparr>\<rparr>,
                \<lparr>Width = 1, Height = 1,
                 Data = \<lparr>Encoding = Base64, Compression = Gzip, Bytes = []\<rparr>\<rparr>]\<rparr> =
     Inl ErrUnsupportedCompression \<and>
   DecodedLayers (stub_lib [3, 0, 0, 0])
     \<lparr>Tilesets = [\<lparr>FirstGID = 5\<rparr>],
      Layers = [\<lparr>Width = 1, Height = 1,
                 Data = \<lparr>Encoding = Base64, Compression = Gzip, Bytes = []\<rparr>\<rparr>]\<rparr> =
     Inl ErrInvalidGID"
proof -
  let ?L = "\<lparr>Width = 1, Height = 1,
    Data = \<lparr>Encoding = Base64, Compression = Gzip, Bytes = []\<rparr>\<rparr>"
  let ?U = "\<lparr>Width = 1, Height = 1,
    Data = \<lparr>Encoding = Base64, Compression = Uncompressed, Bytes = []\<rparr>\<rparr>"
  let ?t = "\<lparr>ID = 0, Tileset = Some 0, HorizontalFlip = False,
    VerticalFlip = False, DiagonalFlip = False, Nil_f = False\<rparr>"
  let ?d = "\<lparr>DecodedTiles = [?t], Tileset = None, Empty = False\<rparr>"
  let ?M1 = "\<lparr>Tilesets = [\<lparr>FirstGID = 5\<rparr>], Layers = [?L]\<rparr>"
  let ?M3 = "\<lparr>Tilesets = [\<lparr>FirstGID = 5\<rparr>], Layers = [?L, ?U, ?L]\<rparr>"
  have dec5: "Layer_Decode (stub_lib [5, 0, 0, 0]) ?L = Inr [5]"
    by (simp add: stub_Layer_Decode_1x1)
  have dec3: "Layer_Decode (stub_lib [3, 0, 0, 0]) ?L = Inr [3]"
    by (simp add: stub_Layer_Decode_1x1)
  have g1: "DecodeGID ?M1 5 = Inr ?t" and g3: "DecodeGID ?M3 5 = Inr ?t"
    by (simp_all add: DecodeGID_def unmasked_low29 flip_bits)
  have b1: "DecodeGID ?M1 3 = Inl ErrInvalidGID"
    by (simp add: DecodeGID_def unmasked_low29)
  have ok1: "layer_decodes (stub_lib [5, 0, 0, 0]) ?M1 ?L ?d"
    unfolding layer_decodes_def resolves_def using dec5 g1 by fastforce
  have ok3: "layer_decodes (stub_lib [5, 0, 0, 0]) ?M3 ?L ?d"
    unfolding layer_decodes_def resolves_def using dec5 g3 by fastforce
  have "Layer_Decode (stub_lib [5, 0, 0, 0]) ?U = Inl ErrUnsupportedCompression"
    by (simp add: Layer_Decode_def decodeBytes_default Gzip_def Zlib_def Uncompressed_def)
  then have bad3: "layer_fails (stub_lib [5, 0, 0, 0]) ?M3 ?U ErrUnsupportedCompression"
    by (simp add: layer_fails_def)
  have "Layer_Decode (stub_lib [3, 0, 0, 0]) ?L = Inr [3] \<and> [3] = [] @ 3 # [] \<and>
      resolves ?M1 [] [] \<and> DecodeGID ?M1 3 = Inl ErrInvalidGID"
    using dec3 b1 by (simp add: resolves_def)
  then have bad1: "layer_fails (stub_lib [3, 0, 0, 0]) ?M1 ?L ErrInvalidGID"
    unfolding layer_fails_def by blast
  have 1: "DecodedLayers (stub_lib [5, 0, 0, 0]) ?M1 = Inr [?d]"
    using DecodedLayers_atomic [of "stub_lib [5, 0, 0, 0]" ?M1 "[?d]"] ok1 by simp
  have 2: "DecodedLayers (stub_lib [5, 0, 0, 0]) ?M3 = Inl ErrUnsupportedCompression"
    using DecodedLayers_atomic [of "stub_lib [5, 0, 0, 0]" ?M3 _ "[?L]" ?U "[?L]" "[?d]"
        ErrUnsupportedCompression] ok3 bad3 by simp
  have 3: "DecodedLayers (stub_lib [3, 0, 0, 0]) ?M1 = Inl ErrInvalidGID"
    using DecodedLayers_atomic [of "stub_lib [3, 0, 0, 0]" ?M1 _ "[]" ?L "[]" "[]"
        ErrInvalidGID] bad1 by simp
  from 1 2 3 show ?thesis by simp
qed

lemma Read_loop_frame: "Read_loop out layers i = (out, layers)"
proof (induction n \<equiv> "length layers - i" arbitrary: i)
  case 0
  then show ?case by (subst Read_loop.simps) simp
next
  case (Suc n)
  then have "Read_loop out layers (i + 1) = (out, layers)" by simp
  then show ?case
    by (subst Read_loop.simps) (simp add: Let_def split: prod.splits)
qed

lemma DecodedLayers_unclassified:
  assumes "DecodedLayers lib m = Inr ds" and "d \<in> set ds"
  shows "DecodedLayer.Tileset d = None \<and> Empty d = False"
proof -
  from assms(1) have "list_all2 (layer_decodes lib m) (Layers m) ds"
    by (rule DecodedLayers_Inr_D)
  with assms(2) obtain l where "layer_decodes lib m l d"
    by (auto simp: list_all2_conv_all_nth in_set_conv_nth)
  then show ?thesis by (auto simp: layer_decodes_def)
qed

text \<open>
  Claim C5. Every decoded layer returned by \<^verbatim>\<open>Map.DecodedLayers\<close> has the field
  \<open>Tileset\<close> nil and the field \<open>Empty\<close> false, whatever its tiles are. The loop of
  \<^verbatim>\<open>Read\<close> leaves the map and the slice of decoded layers as they were: what
  \<^verbatim>\<open>getTileset\<close> computes goes to the copy \<^verbatim>\<open>l\<close> of the iteration and is lost with
  it. So \<^verbatim>\<open>Read\<close> returns the error of the XML decoder, or the error of
  \<^verbatim>\<open>DecodedLayers\<close>, or the map exactly as the XML decoder produced it.
\<close>

theorem classification_discarded:
  "(DecodedLayers lib m = Inr ds \<longrightarrow>
      (\<forall>d \<in> set ds. DecodedLayer.Tileset d = None \<and> Empty d = False)) \<and>
   Read_loop out layers i = (out, layers) \<and>
   Read lib xml_Decode r =
     (case xml_Decode r of
        Inl err \<Rightarrow> Inl (LibraryError err)
      | Inr out' \<Rightarrow>
          (case DecodedLayers lib out' of Inl err \<Rightarrow> Inl err | Inr layers' \<Rightarrow> Inr out'))"
  by (auto simp: Read_def Read_loop_frame split: sum.splits dest: DecodedLayers_unclassified)

theorem classification_discarded_witness:
  "DecodedLayers (stub_lib [0, 0, 0, 0])
     \<lparr>Tilesets = [\<lparr>FirstGID = 1\<rparr>],
      Layers = [\<lparr>Width = 1, Height = 1,
                 Data = \<lparr>Encoding = Base64, Compression = Gzip, Bytes = []\<rparr>\<rparr>]\<rparr> =
     Inr [\<lparr>DecodedTiles = [NilTile], Tileset = None, Empty = False\<rparr>] \<and>
   DecodedLayer.Tileset \<lparr>DecodedTiles = [NilTile], Tileset = None, Empty = False\<rparr> = None \<and>
   Empty \<lparr>DecodedTiles = [NilTile], Tileset = None, Empty = False\<rparr> = False \<and>
   getTileset
     \<lparr>Tilesets = [\<lparr>FirstGID = 1\<rparr>],
      Layers = [\<lparr>Width = 1, Height = 1,
                 Data = \<lparr>Encoding = Base64, Compression = Gzip, Bytes = []\<rparr>\<rparr>]\<rparr>
     \<lparr>DecodedTiles = [NilTile], Tileset = None, Empty = False\<rparr> = (None, True, False) \<and>
   Read (stub_lib [0, 0, 0, 0])
     (\<lambda>r. Inr \<lparr>Tilesets = [\<lparr>FirstGID = 1\<rparr>],
      Layers = [\<lparr>Width = 1, Height = 1,
                 Data = \<lparr>Encoding = Base64, Compression = Gzip, Bytes = []\<rparr>\<rparr>]\<rparr>) [] =
     Inr \<lparr>Tilesets = [\<lparr>FirstGID = 1\<rparr>],
      Layers = [\<lparr>Width = 1, Height = 1,
                 Data = \<lparr>Encoding = Base64, Compression = Gzip, Bytes = []\<rparr>\<rparr>]\<rparr>"
proof -
  let ?L = "\<lparr>Width = 1, Height = 1,
    Data = \<lparr>Encoding = Base64, Compression = Gzip, Bytes = []\<rparr>\<rparr>"
  let ?M = "\<lparr>Tilesets = [\<lparr>FirstGID = 1\<rparr>], Layers = [?L]\<rparr>"
  let ?d = "\<lparr>DecodedTiles = [NilTile], Tileset = None, Empty = False\<rparr>"
  have dl: "DecodedLayers (stub_lib [0, 0, 0, 0]) ?M = Inr [?d]"
    by (simp add: DecodedLayers_def stub_Layer_Decode_1x1 DecodeGID_zero)
  have cl: "getTileset ?M ?d = (None, True, False)"
    by (simp add: getTileset_def NilTile_def)
  from classification_discarded
    [of "stub_lib [0, 0, 0, 0]" ?M "[?d]" ?M "[?d]" 0 "\<lambda>r. Inr ?M" "[]"] dl cl
  show ?thesis by simp
qed

section \<open>Properties of getTileset\<close>

lemma DecodeGID_scan_tile:
  "DecodeGID_scan ts gid u n = Inr t \<Longrightarrow> \<not> Nil_f t \<and> (\<exists>i<n. DecodedTile.Tileset t = Some i)"
  by (induction n) (auto split: if_splits intro: less_SucI)

lemma DecodeGID_tile:
  "DecodeGID m gid = Inr t \<Longrightarrow> Nil_f t \<or> DecodedTile.Tileset t \<noteq> None"
  by (auto simp: DecodeGID_def NilTile_def Let_def split: if_splits dest: DecodeGID_scan_tile)

lemma resolves_decoded_tiles: "resolves m gids tiles \<Longrightarrow> decoded_tiles tiles"
  unfolding resolves_def decoded_tiles_def
  by (induction gids tiles rule: list_all2_induct) (auto dest: DecodeGID_tile)

lemma DecodedLayers_decoded_tiles:
  assumes "DecodedLayers lib m = Inr ds" and "d \<in> set ds"
  shows "decoded_tiles (DecodedTiles d)"
proof -
  from assms(1) have "list_all2 (layer_decodes lib m) (Layers m) ds"
    by (rule DecodedLayers_Inr_D)
  with assms(2) obtain l where "layer_decodes lib m l d"
    by (auto simp: list_all2_conv_all_nth in_set_conv_nth)
  then show ?thesis by (auto simp: layer_decodes_def dest: resolves_decoded_tiles)
qed

lemma getTileset_loop_char:
  "decoded_tiles tiles \<Longrightarrow>
   getTileset_loop tiles tileset =
     (let ne = filter (\<lambda>t. \<not> Nil_f t) tiles;
          first = (if tileset = None then (if ne = [] then None else DecodedTile.Tileset (hd ne))
                   else tileset)
      in if first = None then (None, True, False)
         else if \<exists>t \<in> set ne. DecodedTile.Tileset t \<noteq> first then (first, False, True)
         else (first, False, False))"
proof (induction tiles arbitrary: tileset)
  case Nil
  then show ?case by simp
next
  case (Cons tile tiles)
  from Cons.prems have d: "decoded_tiles tiles" and t: "Nil_f tile \<or> DecodedTile.Tileset tile \<noteq> None"
    by (simp_all add: decoded_tiles_def)
  show ?case
  proof (cases "Nil_f tile")
    case True
    with Cons.IH [OF d, of tileset] show ?thesis by simp
  next
    case False
    with t obtain b where b: "DecodedTile.Tileset tile = Some b" by auto
    show ?thesis
    proof (cases tileset)
      case None
      with False b Cons.IH [OF d, of "Some b"] show ?thesis by (simp add: Let_def)
    next
      case (Some a)
      with False b Cons.IH [OF d, of "Some a"] show ?thesis by (auto simp: Let_def)
    qed
  qed
qed

lemma getTileset_loop_all_Nil:
  "\<forall>t \<in> set tiles. Nil_f t \<Longrightarrow> getTileset_loop tiles None = (None, True, False)"
  by (induction tiles) simp_all

lemma getTileset_empty:
  "\<forall>t \<in> set (DecodedTiles l). Nil_f t \<Longrightarrow> getTileset m l = (None, True, False)"
  by (simp add: getTileset_def getTileset_loop_all_Nil)

lemma getTileset_multi:
  assumes dt: "decoded_tiles (DecodedTiles l)"
    and "t1 \<in> set (DecodedTiles l)" and "t2 \<in> set (DecodedTiles l)"
    and "\<not> Nil_f t1" and "\<not> Nil_f t2"
    and "DecodedTile.Tileset t1 \<noteq> DecodedTile.Tileset t2"
  shows "getTileset m l =
      (DecodedTile.Tileset (hd (filter (\<lambda>t. \<not> Nil_f t) (DecodedTiles l))), False, True) \<and>
    DecodedTile.Tileset (hd (filter (\<lambda>t. \<not> Nil_f t) (DecodedTiles l))) \<noteq> None"
proof -
  let ?ne = "filter (\<lambda>t. \<not> Nil_f t) (DecodedTiles l)"
  from assms have t: "t1 \<in> set ?ne" "t2 \<in> set ?ne" by simp_all
  from t(1) have ne: "?ne \<noteq> []" by (metis empty_iff empty_set)
  then have "hd ?ne \<in> set ?ne" by (rule hd_in_set)
  with dt have some: "DecodedTile.Tileset (hd ?ne) \<noteq> None"
    by (auto simp: decoded_tiles_def list_all_iff)
  from t assms(6) have ex: "\<exists>t \<in> set ?ne. DecodedTile.Tileset t \<noteq> DecodedTile.Tileset (hd ?ne)"
    by metis
  have "getTileset m l = (DecodedTile.Tileset (hd ?ne), False, True)"
    using ne some ex by (simp add: getTileset_def getTileset_loop_char [OF dt] Let_def)
  with some show ?thesis by simp
qed

lemma getTileset_uniform:
  assumes dt: "decoded_tiles (DecodedTiles l)"
    and "t0 \<in> set (DecodedTiles l)" and "\<not> Nil_f t0"
    and "\<forall>t \<in> set (DecodedTiles l). \<not> Nil_f t \<longrightarrow> DecodedTile.Tileset t = DecodedTile.Tileset t0"
  shows "getTileset m l = (DecodedTile.Tileset t0, False, False) \<and>
    DecodedTile.Tileset t0 \<noteq> None"
proof -
  let ?ne = "filter (\<lambda>t. \<not> Nil_f t) (DecodedTiles l)"
  from assms have "t0 \<in> set ?ne" by simp
  then have ne: "?ne \<noteq> []" by (metis empty_iff empty_set)
  then have "hd ?ne \<in> set ?ne" by (rule hd_in_set)
  with assms(4) have hd: "DecodedTile.Tileset (hd ?ne) = DecodedTile.Tileset t0" by simp
  from dt assms(2,3) have some: "DecodedTile.Tileset t0 \<noteq> None"
    by (auto simp: decoded_tiles_def list_all_iff)
  from assms(4) have all: "\<not> (\<exists>t \<in> set ?ne. DecodedTile.Tileset t \<noteq> DecodedTile.Tileset t0)"
    by simp
  have "getTileset m l = (DecodedTile.Tileset t0, False, False)"
    using ne some hd all by (simp add: getTileset_def getTileset_loop_char [OF dt] Let_def)
  with some show ?thesis by simp
qed

text \<open>
  Claim C9, as the code has it. For a tile sequence in which no non-empty tile occurs the
  result is \<open>(nil, empty = true, multiTileset = false)\<close>. For a decoded tile sequence
  (every non-empty tile carries a tileset, as the tiles of \<^verbatim>\<open>DecodeGID\<close> do) in which two
  non-empty tiles with distinct tilesets occur, the result has \<open>multiTileset = true\<close> and
  \<open>empty = false\<close>, and its tileset component is the tileset of the first non-empty
  tile, not nil. For a decoded tile sequence with a non-empty tile, all of whose non-empty
  tiles share one tileset, the result is that tileset with \<open>empty = false\<close> and
  \<open>multiTileset = false\<close>.
\<close>

theorem getTileset_contract:
  "((\<forall>t \<in> set (DecodedTiles l). Nil_f t) \<longrightarrow> getTileset m l = (None, True, False)) \<and>
   (decoded_tiles (DecodedTiles l) \<and>
    (\<exists>t1 \<in> set (DecodedTiles l). \<exists>t2 \<in> set (DecodedTiles l).
        \<not> Nil_f t1 \<and> \<not> Nil_f t2 \<and> DecodedTile.Tileset t1 \<noteq> DecodedTile.Tileset t2) \<longrightarrow>
    getTileset m l =
      (DecodedTile.Tileset (hd (filter (\<lambda>t. \<not> Nil_f t) (DecodedTiles l))), False, True) \<and>
    DecodedTile.Tileset (hd (filter (\<lambda>t. \<not> Nil_f t) (DecodedTiles l))) \<noteq> None) \<and>
   (decoded_tiles (DecodedTiles l) \<and> t0 \<in> set (DecodedTiles l) \<and> \<not> Nil_f t0 \<and>
    (\<forall>t \<in> set (DecodedTiles l). \<not> Nil_f t \<longrightarrow> DecodedTile.Tileset t = DecodedTile.Tileset t0) \<longrightarrow>
    getTileset m l = (DecodedTile.Tileset t0, False, False) \<and> DecodedTile.Tileset t0 \<noteq> None)"
proof (intro conjI)
  show "(\<forall>t \<in> set (DecodedTiles l). Nil_f t) \<longrightarrow> getTileset m l = (None, True, False)"
    by (simp add: getTileset_empty)
  show "decoded_tiles (DecodedTiles l) \<and>
    (\<exists>t1 \<in> set (DecodedTiles l). \<exists>t2 \<in> set (DecodedTiles l).
        \<not> Nil_f t1 \<and> \<not> Nil_f t2 \<and> DecodedTile.Tileset t1 \<noteq> DecodedTile.Tileset t2) \<longrightarrow>
    getTileset m l =
      (DecodedTile.Tileset (hd (filter (\<lambda>t. \<not> Nil_f t) (DecodedTiles l))), False, True) \<and>
    DecodedTile.Tileset (hd (filter (\<lambda>t. \<not> Nil_f t) (DecodedTiles l))) \<noteq> None"
    using getTileset_multi [of l _ _ m] by blast
  show "decoded_tiles (DecodedTiles l) \<and> t0 \<in> set (DecodedTiles l) \<and> \<not> Nil_f t0 \<and>
    (\<forall>t \<in> set (DecodedTiles l). \<not> Nil_f t \<longrightarrow> DecodedTile.Tileset t = DecodedTile.Tileset t0) \<longrightarrow>
    getTileset m l = (DecodedTile.Tileset t0, False, False) \<and> DecodedTile.Tileset t0 \<noteq> None"
    using getTileset_uniform [of l t0 m] by blast
qed

theorem getTileset_contract_witness:
  "getTileset \<lparr>Tilesets = [\<lparr>FirstGID = 1\<rparr>, \<lparr>FirstGID = 5\<rparr>], Layers = []\<rparr>
     \<lparr>DecodedTiles = [NilTile,
        NilTile],
      Tileset = None, Empty = False\<rparr> = (None, True, False) \<and>
   getTileset \<lparr>Tilesets = [\<lparr>FirstGID = 1\<rparr>, \<lparr>FirstGID = 5\<rparr>], Layers = []\<rparr>
     \<lparr>DecodedTiles = [\<lparr>ID = 0, Tileset = Some 0, HorizontalFlip = False, VerticalFlip = False, DiagonalFlip = False, Nil_f = False\<rparr>,
        NilTile,
        \<lparr>ID = 0, Tileset = Some 1, HorizontalFlip = False, VerticalFlip = False, DiagonalFlip = False, Nil_f = False\<rparr>],
      Tileset = None, Empty = False\<rparr> = (Some 0, False, True) \<and>
   getTileset \<lparr>Tilesets = [\<lparr>FirstGID = 1\<rparr>, \<lparr>FirstGID = 5\<rparr>], Layers = []\<rparr>
     \<lparr>DecodedTiles = [NilTile,
        \<lparr>ID = 0, Tileset = Some 0, HorizontalFlip = False, VerticalFlip = False, DiagonalFlip = False, Nil_f = False\<rparr>,
        \<lparr>ID = 2, Tileset = Some 0, HorizontalFlip = False, VerticalFlip = False, DiagonalFlip = False, Nil_f = False\<rparr>],
      Tileset = None, Empty = False\<rparr> = (Some 0, False, False)"
proof -
  let ?M = "\<lparr>Tilesets = [\<lparr>FirstGID = 1\<rparr>, \<lparr>FirstGID = 5\<rparr>], Layers = []\<rparr>"
  let ?t0 = "\<lparr>ID = 0, Tileset = Some 0, HorizontalFlip = False, VerticalFlip = False, DiagonalFlip = False, Nil_f = False\<rparr>"
  let ?t0' = "\<lparr>ID = 2, Tileset = Some 0, HorizontalFlip = False, VerticalFlip = False, DiagonalFlip = False, Nil_f = False\<rparr>"
  let ?t1 = "\<lparr>ID = 0, Tileset = Some 1, HorizontalFlip = False, VerticalFlip = False, DiagonalFlip = False, Nil_f = False\<rparr>"
  let ?E = "\<lparr>DecodedTiles = [NilTile, NilTile], Tileset = None, Empty = False\<rparr>"
  let ?X = "\<lparr>DecodedTiles = [?t0, NilTile, ?t1], Tileset = None, Empty = False\<rparr>"
  let ?U = "\<lparr>DecodedTiles = [NilTile, ?t0, ?t0'], Tileset = None, Empty = False\<rparr>"
  have 1: "getTileset ?M ?E = (None, True, False)"
    using getTileset_contract [of ?E ?M] by (simp add: NilTile_def)
  have 2: "getTileset ?M ?X = (Some 0, False, True)"
    using getTileset_contract [of ?X ?M] by (simp add: NilTile_def decoded_tiles_def)
  have 3: "getTileset ?M ?U = (Some 0, False, False)"
    using getTileset_contract [of ?U ?M ?t0] by (simp add: NilTile_def decoded_tiles_def)
  from 1 2 3 show ?thesis by simp
qed

text \<open>
  The claim C9 as it is written says that with two non-empty tiles of distinct tilesets
  the result records no uniform tileset. For the tiles that \<^verbatim>\<open>DecodeGID\<close> returns for
  the RIDs 1 and 5 over the tilesets with first identifiers 1 and 5, the first component
  of the result is the first tileset, not nil.
\<close>

theorem getTileset_multi_counterexample:
  "DecodeGID \<lparr>Tilesets = [\<lparr>FirstGID = 1\<rparr>, \<lparr>FirstGID = 5\<rparr>], Layers = []\<rparr> 1 =
     Inr \<lparr>ID = 0, Tileset = Some 0, HorizontalFlip = False, VerticalFlip = False, DiagonalFlip = False, Nil_f = False\<rparr> \<and>
   DecodeGID \<lparr>Tilesets = [\<lparr>FirstGID = 1\<rparr>, \<lparr>FirstGID = 5\<rparr>], Layers = []\<rparr> 5 =
     Inr \<lparr>ID = 0, Tileset = Some 1, HorizontalFlip = False, VerticalFlip = False, DiagonalFlip = False, Nil_f = False\<rparr> \<and>
   getTileset \<lparr>Tilesets = [\<lparr>FirstGID = 1\<rparr>, \<lparr>FirstGID = 5\<rparr>], Layers = []\<rparr>
     \<lparr>DecodedTiles = [\<lparr>ID = 0, Tileset = Some 0, HorizontalFlip = False, VerticalFlip = False, DiagonalFlip = False, Nil_f = False\<rparr>,
        \<lparr>ID = 0, Tileset = Some 1, HorizontalFlip = False, VerticalFlip = False, DiagonalFlip = False, Nil_f = False\<rparr>],
      Tileset = None, Empty = False\<rparr> = (Some 0, False, True) \<and>
   fst (getTileset \<lparr>Tilesets = [\<lparr>FirstGID = 1\<rparr>, \<lparr>FirstGID = 5\<rparr>], Layers = []\<rparr>
     \<lparr>DecodedTiles = [\<lparr>ID = 0, Tileset = Some 0, HorizontalFlip = False, VerticalFlip = False, DiagonalFlip = False, Nil_f = False\<rparr>,
        \<lparr>ID = 0, Tileset = Some 1, HorizontalFlip = False, VerticalFlip = False, DiagonalFlip = False, Nil_f = False\<rparr>],
      Tileset = None, Empty = False\<rparr>) \<noteq> None"
proof -
  have a: "DecodeGID \<lparr>Tilesets = [\<lparr>FirstGID = 1\<rparr>, \<lparr>FirstGID = 5\<rparr>], Layers = []\<rparr> 1 =
     Inr \<lparr>ID = 0, Tileset = Some 0, HorizontalFlip = False, VerticalFlip = False, DiagonalFlip = False, Nil_f = False\<rparr>"
    by code_simp
  have b: "DecodeGID \<lparr>Tilesets = [\<lparr>FirstGID = 1\<rparr>, \<lparr>FirstGID = 5\<rparr>], Layers = []\<rparr> 5 =
     Inr \<lparr>ID = 0, Tileset = Some 1, HorizontalFlip = False, VerticalFlip = False, DiagonalFlip = False, Nil_f = False\<rparr>"
    by code_simp
  from a b show ?thesis by (simp add: getTileset_def)
qed

section \<open>Properties of Polygon.Decode\<close>

lemma two_elems: "length xs = 2 \<Longrightarrow> xs = [xs ! 0, xs ! 1]"
  by (cases xs; cases "tl xs") auto

lemma part_cases: "(\<exists>pt. part_point part pt) \<or> (\<exists>e. part_fails part e)"
proof (cases "length (Split part CHR '','') = 2")
  case False
  then show ?thesis by (auto simp: part_fails_def)
next
  case True
  then obtain a b where ab: "Split part CHR '','' = [a, b]"
    using two_elems by blast
  show ?thesis
  proof (cases "Atoi a")
    case (Inl e)
    with ab show ?thesis by (auto simp: part_fails_def)
  next
    case x: (Inr x)
    show ?thesis
    proof (cases "Atoi b")
      case (Inl e)
      with ab x show ?thesis by (auto simp: part_fails_def)
    next
      case (Inr y)
      with ab x show ?thesis by (auto simp: part_point_def)
    qed
  qed
qed

lemma part_point_step:
  "part_point part pt \<Longrightarrow>
   Polygon_Decode_loop (part # parts) i out = Polygon_Decode_loop parts (i + 1) (out[i := pt])"
  by (auto simp: part_point_def Let_def)

lemma part_fails_step:
  "part_fails part e \<Longrightarrow> Polygon_Decode_loop (part # parts) i out = Inl e"
  by (auto simp: part_fails_def Let_def)

lemma Polygon_Decode_loop_ok:
  "list_all2 part_point parts pts \<Longrightarrow> i + length parts \<le> length out \<Longrightarrow>
   Polygon_Decode_loop parts i out = Inr (take i out @ pts @ drop (i + length parts) out)"
proof (induction parts pts arbitrary: i out rule: list_all2_induct)
  case Nil
  then show ?case by simp
next
  case (Cons part parts pt pts)
  from Cons.prems have i: "i < length out" by simp
  from Cons.prems have "(i + 1) + length parts \<le> length (out[i := pt])" by simp
  from Cons.IH [OF this]
  have "Polygon_Decode_loop parts (i + 1) (out[i := pt]) =
      Inr (take (i + 1) (out[i := pt]) @ pts @ drop (i + 1 + length parts) (out[i := pt]))" .
  moreover have "take (i + 1) (out[i := pt]) = take i out @ [pt]"
    using i by (simp add: take_Suc_conv_app_nth)
  moreover have "drop (i + 1 + length parts) (out[i := pt]) = drop (i + 1 + length parts) out"
    by simp
  ultimately show ?case
    using Cons.hyps(1) by (simp add: part_point_step del: Polygon_Decode_loop.simps)
qed

lemma Polygon_Decode_loop_fail:
  "list_all2 part_point pre pts \<Longrightarrow> part_fails part e \<Longrightarrow>
   Polygon_Decode_loop (pre @ part # post) i out = Inl e"
proof (induction pre pts arbitrary: i out rule: list_all2_induct)
  case Nil
  then show ?case by (simp add: part_fails_step del: Polygon_Decode_loop.simps)
next
  case (Cons p pre pt pts)
  then show ?case by (simp add: part_point_step del: Polygon_Decode_loop.simps)
qed

lemma parts_cases:
  "(\<exists>pts. list_all2 part_point parts pts) \<or>
   (\<exists>pre part post pts e. parts = pre @ part # post \<and> list_all2 part_point pre pts \<and>
      part_fails part e)"
proof (induction parts)
  case Nil
  then show ?case by simp
next
  case (Cons p parts)
  from part_cases [of p] show ?case
  proof
    assume "\<exists>e. part_fails p e"
    then obtain e where "part_fails p e" ..
    then have "p # parts = [] @ p # parts \<and> list_all2 part_point [] [] \<and> part_fails p e"
      by simp
    then show ?thesis by blast
  next
    assume "\<exists>pt. part_point p pt"
    then obtain pt where pt: "part_point p pt" ..
    from Cons.IH show ?thesis
    proof
      assume "\<exists>pts. list_all2 part_point parts pts"
      then obtain pts where "list_all2 part_point parts pts" ..
      with pt have "list_all2 part_point (p # parts) (pt # pts)" by simp
      then show ?thesis by blast
    next
      assume "\<exists>pre part post pts e. parts = pre @ part # post \<and>
        list_all2 part_point pre pts \<and> part_fails part e"
      then obtain pre part post pts e where
        h: "parts = pre @ part # post" "list_all2 part_point pre pts" "part_fails part e"
        by blast
      with pt have "p # parts = (p # pre) @ part # post \<and>
        list_all2 part_point (p # pre) (pt # pts) \<and> part_fails part e" by simp
      then show ?thesis by blast
    qed
  qed
qed

lemma Polygon_Decode_ok:
  assumes "list_all2 part_point (Split (Points p) CHR '' '') pts"
  shows "Polygon_Decode p = Inr pts"
proof -
  let ?parts = "Split (Points p) CHR '' ''"
  let ?out = "replicate (length ?parts) \<lparr>X = 0, Y = 0\<rparr>"
  from assms have len: "length pts = length ?parts" by (simp add: list_all2_lengthD)
  have "Polygon_Decode_loop ?parts 0 ?out =
      Inr (take 0 ?out @ pts @ drop (0 + length ?parts) ?out)"
    by (rule Polygon_Decode_loop_ok [OF assms]) simp
  then show ?thesis by (simp add: Polygon_Decode_def Let_def)
qed

lemma Polygon_Decode_fail:
  assumes "Split (Points p) CHR '' '' = pre @ part # post"
    and "list_all2 part_point pre pts" and "part_fails part e"
  shows "Polygon_Decode p = Inl e"
  using Polygon_Decode_loop_fail [OF assms(2,3), of post] assms(1)
  by (simp add: Polygon_Decode_def Let_def)

lemma Polygon_Decode_Inr_D:
  assumes "Polygon_Decode p = Inr pts"
  shows "list_all2 part_point (Split (Points p) CHR '' '') pts"
proof -
  from parts_cases [of "Split (Points p) CHR '' ''"] show ?thesis
  proof
    assume "\<exists>pts'. list_all2 part_point (Split (Points p) CHR '' '') pts'"
    then obtain pts' where h: "list_all2 part_point (Split (Points p) CHR '' '') pts'" ..
    from Polygon_Decode_ok [OF h] assms have "pts' = pts" by simp
    with h show ?thesis by simp
  next
    assume "\<exists>pre part post pts' e. Split (Points p) CHR '' '' = pre @ part # post \<and>
      list_all2 part_point pre pts' \<and> part_fails part e"
    then obtain pre part post pts' e where
      h: "Split (Points p) CHR '' '' = pre @ part # post" "list_all2 part_point pre pts'"
        "part_fails part e" by blast
    from Polygon_Decode_fail [OF h] assms show ?thesis by simp
  qed
qed

lemma Polygon_Decode_Inl_D:
  assumes "Polygon_Decode p = Inl e"
  shows "\<exists>pre part post pts. Split (Points p) CHR '' '' = pre @ part # post \<and>
      list_all2 part_point pre pts \<and> part_fails part e"
proof -
  from parts_cases [of "Split (Points p) CHR '' ''"] show ?thesis
  proof
    assume "\<exists>pts'. list_all2 part_point (Split (Points p) CHR '' '') pts'"
    then obtain pts' where h: "list_all2 part_point (Split (Points p) CHR '' '') pts'" ..
    from Polygon_Decode_ok [OF h] assms show ?thesis by simp
  next
    assume "\<exists>pre part post pts' e. Split (Points p) CHR '' '' = pre @ part # post \<and>
      list_all2 part_point pre pts' \<and> part_fails part e"
    then obtain pre part post pts' e' where
      h: "Split (Points p) CHR '' '' = pre @ part # post" "list_all2 part_point pre pts'"
        "part_fails part e'" by blast
    from Polygon_Decode_fail [OF h] assms have "e' = e" by simp
    with h show ?thesis by blast
  qed
qed

text \<open>
  Claim C10. The points string is split on the space character. When every part splits on
  the comma into exactly two substrings that both parse as integers, the result is the
  sequence of the points of the parts, in input order. Otherwise the result is the error
  of the first part that fails: \<open>ErrInvalidPointsField\<close> when it does not split into
  exactly two substrings, else the error of \<^verbatim>\<open>strconv.Atoi\<close> on its first substring
  that does not parse. Decoding \<open>0,0 10,0 10,10\<close> yields the points (0,0), (10,0),
  (10,10) in that order, and decoding \<open>0,0 10\<close> fails with
  \<open>ErrInvalidPointsField\<close>.
\<close>

theorem Polygon_Decode_contract:
  "(list_all2 part_point (Split (Points p) CHR '' '') pts \<longrightarrow> Polygon_Decode p = Inr pts) \<and>
   (Split (Points p) CHR '' '' = pre @ part # post \<and> list_all2 part_point pre pts' \<and>
    part_fails part e \<longrightarrow> Polygon_Decode p = Inl e) \<and>
   (Polygon_Decode p = Inr pts \<longrightarrow> list_all2 part_point (Split (Points p) CHR '' '') pts) \<and>
   (Polygon_Decode p = Inl e \<longrightarrow>
      (\<exists>pre part post pts'. Split (Points p) CHR '' '' = pre @ part # post \<and>
         list_all2 part_point pre pts' \<and> part_fails part e)) \<and>
   Polygon_Decode \<lparr>Points = ''0,0 10,0 10,10''\<rparr> =
     Inr [\<lparr>X = 0, Y = 0\<rparr>, \<lparr>X = 10, Y = 0\<rparr>, \<lparr>X = 10, Y = 10\<rparr>] \<and>
   Polygon_Decode \<lparr>Points = ''0,0 10''\<rparr> = Inl ErrInvalidPointsField"
proof (intro conjI impI)
  assume "list_all2 part_point (Split (Points p) CHR '' '') pts"
  then show "Polygon_Decode p = Inr pts" by (rule Polygon_Decode_ok)
next
  assume "Split (Points p) CHR '' '' = pre @ part # post \<and> list_all2 part_point pre pts' \<and>
    part_fails part e"
  then show "Polygon_Decode p = Inl e" by (blast intro: Polygon_Decode_fail)
next
  assume "Polygon_Decode p = Inr pts"
  then show "list_all2 part_point (Split (Points p) CHR '' '') pts"
    by (rule Polygon_Decode_Inr_D)
next
  assume "Polygon_Decode p = Inl e"
  then show "\<exists>pre part post pts'. Split (Points p) CHR '' '' = pre @ part # post \<and>
      list_all2 part_point pre pts' \<and> part_fails part e"
    by (rule Polygon_Decode_Inl_D)
next
  show "Polygon_Decode \<lparr>Points = ''0,0 10,0 10,10''\<rparr> =
     Inr [\<lparr>X = 0, Y = 0\<rparr>, \<lparr>X = 10, Y = 0\<rparr>, \<lparr>X = 10, Y = 10\<rparr>]"
    by code_simp
next
  show "Polygon_Decode \<lparr>Points = ''0,0 10''\<rparr> = Inl ErrInvalidPointsField"
    by code_simp
qed

theorem Polygon_Decode_contract_witness:
  "Polygon_Decode \<lparr>Points = ''1,2 -3,4''\<rparr> = Inr [\<lparr>X = 1, Y = 2\<rparr>, \<lparr>X = - 3, Y = 4\<rparr>] \<and>
   Polygon_Decode \<lparr>Points = ''1,2 3,x 5''\<rparr> = Inl (NumErrSyntax ''x'') \<and>
   Polygon_Decode \<lparr>Points = ''1,2 3,4,5 x,6''\<rparr> = Inl ErrInvalidPointsField"
proof -
  have s1: "Split (Points \<lparr>Points = ''1,2 -3,4''\<rparr>) CHR '' '' = [''1,2'', ''-3,4'']"
    and s2: "Split (Points \<lparr>Points = ''1,2 3,x 5''\<rparr>) CHR '' '' = [''1,2''] @ ''3,x'' # [''5'']"
    and s3: "Split (Points \<lparr>Points = ''1,2 3,4,5 x,6''\<rparr>) CHR '' '' =
        [''1,2''] @ ''3,4,5'' # [''x,6'']"
    by code_simp+
  have c1: "Split ''1,2'' CHR '','' = [''1'', ''2'']"
    and c2: "Split ''-3,4'' CHR '','' = [''-3'', ''4'']"
    and c3: "Split ''3,x'' CHR '','' = [''3'', ''x'']"
    and c4: "length (Split ''3,4,5'' CHR '','') \<noteq> 2"
    by code_simp+
  have a1: "Atoi ''1'' = Inr 1" and a2: "Atoi ''2'' = Inr 2" and a3: "Atoi ''-3'' = Inr (- 3)"
    and a4: "Atoi ''4'' = Inr 4" and a5: "Atoi ''3'' = Inr 3"
    and a6: "Atoi ''x'' = Inl (NumErrSyntax ''x'')"
    by code_simp+
  have p1: "part_point ''1,2'' \<lparr>X = 1, Y = 2\<rparr>"
    unfolding part_point_def using c1 a1 a2 by blast
  have p2: "part_point ''-3,4'' \<lparr>X = - 3, Y = 4\<rparr>"
    unfolding part_point_def using c2 a3 a4 by blast
  have f1: "part_fails ''3,x'' (NumErrSyntax ''x'')"
    unfolding part_fails_def using c3 a5 a6 by blast
  have f2: "part_fails ''3,4,5'' ErrInvalidPointsField"
    unfolding part_fails_def using c4 by blast
  have 1: "Polygon_Decode \<lparr>Points = ''1,2 -3,4''\<rparr> =
      Inr [\<lparr>X = 1, Y = 2\<rparr>, \<lparr>X = - 3, Y = 4\<rparr>]"
    using Polygon_Decode_contract [of "\<lparr>Points = ''1,2 -3,4''\<rparr>"
        "[\<lparr>X = 1, Y = 2\<rparr>, \<lparr>X = - 3, Y = 4\<rparr>]"] p1 p2
    by (simp only: s1 list_all2_Cons list_all2_Nil simp_thms)
  have 2: "Polygon_Decode \<lparr>Points = ''1,2 3,x 5''\<rparr> = Inl (NumErrSyntax ''x'')"
    using Polygon_Decode_contract [of "\<lparr>Points = ''1,2 3,x 5''\<rparr>" _ "[''1,2'']" "''3,x''"
        "[''5'']" "[\<lparr>X = 1, Y = 2\<rparr>]" "NumErrSyntax ''x''"] p1 f1 s2
    by (simp only: list_all2_Cons list_all2_Nil simp_thms)
  have 3: "Polygon_Decode \<lparr>Points = ''1,2 3,4,5 x,6''\<rparr> = Inl ErrInvalidPointsField"
    using Polygon_Decode_contract [of "\<lparr>Points = ''1,2 3,4,5 x,6''\<rparr>" _ "[''1,2'']" "''3,4,5''"
        "[''x,6'']" "[\<lparr>X = 1, Y = 2\<rparr>]" ErrInvalidPointsField] p1 f2 s3
    by (simp only: list_all2_Cons list_all2_Nil simp_thms)
  from 1 2 3 show ?thesis by (intro conjI)
qed

section \<open>Layer.Decode on a payload of the declared size\<close>

lemma little_endian_sum:
  "ucast (b0 :: byte) + push_bit 8 (ucast (b1 :: byte)) + push_bit 16 (ucast (b2 :: byte)) +
     push_bit 24 (ucast (b3 :: byte)) =
   (ucast b0 OR push_bit 8 (ucast b1) OR push_bit 16 (ucast b2) OR push_bit 24 (ucast b3) :: GID)"
proof -
  let ?a = "ucast b0 :: GID" and ?b = "push_bit 8 (ucast b1) :: GID"
  let ?c = "push_bit 16 (ucast b2) :: GID" and ?d = "push_bit 24 (ucast b3) :: GID"
  have 1: "?a + ?b = ?a OR ?b"
    by (rule disjunctive_add_eq_or) (auto simp: bit_eq_iff bit_simps dest: bit_imp_le_length)
  have 2: "(?a OR ?b) + ?c = (?a OR ?b) OR ?c"
    by (rule disjunctive_add_eq_or) (auto simp: bit_eq_iff bit_simps dest: bit_imp_le_length)
  have 3: "((?a OR ?b) OR ?c) + ?d = ((?a OR ?b) OR ?c) OR ?d"
    by (rule disjunctive_add_eq_or) (auto simp: bit_eq_iff bit_simps dest: bit_imp_le_length)
  show ?thesis unfolding 1 2 3 by (simp only: or.assoc)
qed

lemma Decode_row_skip:
  "\<not> sint x < sint W \<Longrightarrow> Decode_row bs W y x (j, gids) = Inr (j, gids)"
  by (subst Decode_row.simps) simp

lemma Decode_row_step:
  assumes "sint x < sint W"
    and "int (length bs) = 4 * int (length gids)" and "int (length gids) \<le> 2 ^ 46"
    and "0 \<le> B + sint x" and "B + sint x < int (length gids)"
    and "sint (y * W) = B" and "sint j = 4 * (B + sint x)"
  shows "Decode_row bs W y x (j, gids) =
      Decode_row bs W y (x + 1) (j + 4, gids[nat (B + sint x) := rid_at bs (nat (B + sint x))])"
proof -
  let ?k = "nat (B + sint x)"
  from assms have j0: "sint j = 4 * int ?k" by simp
  from assms have k: "int ?k < int (length gids)" by simp
  with assms have jb: "sint j + 3 < int (length bs)" "sint j + 3 < 2 ^ 62" "0 \<le> sint j"
    by simp_all
  have j1: "sint (j + 1) = sint j + 1" and j2: "sint (j + 2) = sint j + 2"
    and j3: "sint (j + 3) = sint j + 3"
    using jb sint_bounds64 [of j] by (simp_all add: sint_add64)
  have r: "in_range bs j" "in_range bs (j + 1)" "in_range bs (j + 2)" "in_range bs (j + 3)"
    using jb by (simp_all add: in_range_def j1 j2 j3)
  have a: "at bs j = bs ! (4 * ?k)" "at bs (j + 1) = bs ! (4 * ?k + 1)"
    "at bs (j + 2) = bs ! (4 * ?k + 2)" "at bs (j + 3) = bs ! (4 * ?k + 3)"
    using jb by (simp_all add: at_def j1 j2 j3 j0 nat_add_distrib nat_mult_distrib)
  have idx: "sint (y * W + x) = B + sint x"
    using assms sint_bounds64 [of x] by (simp add: sint_add64)
  with assms have g: "in_range gids (y * W + x)" by (simp add: in_range_def)
  show ?thesis
    using assms(1) r g
    by (subst Decode_row.simps) (simp add: Let_def a idx little_endian_sum rid_at_def)
qed

lemma Decode_row_correct:
  assumes "int (length bs) = 4 * int (length gids)" and "int (length gids) \<le> 2 ^ 46"
    and "sint (y * W) = B" and "0 \<le> B" and "B + sint W \<le> int (length gids)"
    and "0 \<le> sint x" and "sint x \<le> sint W" and "sint j = 4 * (B + sint x)"
  shows "\<exists>j' gids'. Decode_row bs W y x (j, gids) = Inr (j', gids') \<and>
      sint j' = 4 * (B + sint W) \<and> length gids' = length gids \<and>
      (\<forall>k < length gids. gids' ! k =
         (if B + sint x \<le> int k \<and> int k < B + sint W then rid_at bs k else gids ! k))"
  using assms
proof (induction n \<equiv> "nat (sint W - sint x)" arbitrary: x j gids)
  case 0
  then have "sint x = sint W" by simp
  with 0 show ?case by (auto simp: Decode_row_skip)
next
  case (Suc n)
  then have lt: "sint x < sint W" by simp
  let ?k = "nat (B + sint x)"
  let ?gids = "gids[?k := rid_at bs ?k]"
  from Suc.prems lt have kb: "0 \<le> B + sint x" "B + sint x < int (length gids)" by simp_all
  have step: "Decode_row bs W y x (j, gids) = Decode_row bs W y (x + 1) (j + 4, ?gids)"
    using lt Suc.prems(1,2) kb Suc.prems(3) Suc.prems(8) by (rule Decode_row_step)
  have x1: "sint (x + 1) = sint x + 1" using lt by (rule sint_Suc64)
  from Suc.prems kb have "sint j + 4 < 2 ^ 62" "0 \<le> sint j" by simp_all
  then have j4: "sint (j + 4) = sint j + 4"
    by (simp add: sint_add64)
  have "\<exists>j' gids'. Decode_row bs W y (x + 1) (j + 4, ?gids) = Inr (j', gids') \<and>
      sint j' = 4 * (B + sint W) \<and> length gids' = length ?gids \<and>
      (\<forall>k < length ?gids. gids' ! k =
         (if B + sint (x + 1) \<le> int k \<and> int k < B + sint W then rid_at bs k else ?gids ! k))"
  proof (rule Suc.hyps(1))
    show "n = nat (sint W - sint (x + 1))" using Suc.hyps(2) x1 by simp
    show "int (length bs) = 4 * int (length ?gids)" using Suc.prems(1) by simp
    show "int (length ?gids) \<le> 2 ^ 46" using Suc.prems(2) by simp
    show "sint (y * W) = B" by (rule Suc.prems(3))
    show "0 \<le> B" by (rule Suc.prems(4))
    show "B + sint W \<le> int (length ?gids)" using Suc.prems(5) by simp
    show "0 \<le> sint (x + 1)" using Suc.prems(6) x1 by simp
    show "sint (x + 1) \<le> sint W" using lt x1 by simp
    show "sint (j + 4) = 4 * (B + sint (x + 1))" using j4 x1 Suc.prems(8) by simp
  qed
  then obtain j' gids' where
    r: "Decode_row bs W y (x + 1) (j + 4, ?gids) = Inr (j', gids')"
      "sint j' = 4 * (B + sint W)" "length gids' = length gids"
      "\<forall>k < length gids. gids' ! k =
         (if B + sint x + 1 \<le> int k \<and> int k < B + sint W then rid_at bs k else ?gids ! k)"
    using x1 by auto
  have "\<forall>k < length gids. gids' ! k =
         (if B + sint x \<le> int k \<and> int k < B + sint W then rid_at bs k else gids ! k)"
  proof (intro allI impI)
    fix k assume k: "k < length gids"
    show "gids' ! k =
         (if B + sint x \<le> int k \<and> int k < B + sint W then rid_at bs k else gids ! k)"
    proof (cases "k = ?k")
      case True
      with r(4) k kb lt show ?thesis by simp
    next
      case False
      with kb have "int k \<noteq> B + sint x" by auto
      with r(4) k False show ?thesis by auto
    qed
  qed
  with step r show ?case by simp
qed

lemma Decode_rows_stop:
  "\<not> sint y < sint H \<Longrightarrow> Decode_rows bs W H y st = Inr st"
  by (subst Decode_rows.simps) simp

lemma Decode_rows_narrow:
  "sint W \<le> 0 \<Longrightarrow> Decode_rows bs W H y (j, gids) = Inr (j, gids)"
proof (induction n \<equiv> "nat (sint H - sint y)" arbitrary: y)
  case 0
  then show ?case by (simp add: Decode_rows_stop)
next
  case (Suc n)
  then have lt: "sint y < sint H" by simp
  then have "sint (y + 1) = sint y + 1" by (rule sint_Suc64)
  with Suc have "Decode_rows bs W H (y + 1) (j, gids) = Inr (j, gids)" by simp
  moreover from Suc.prems have "Decode_row bs W y 0 (j, gids) = Inr (j, gids)"
    by (simp add: Decode_row_skip)
  ultimately show ?case using lt by (subst Decode_rows.simps) simp
qed

lemma Decode_rows_correct:
  assumes "int (length bs) = 4 * int (length gids)" and "int (length gids) \<le> 2 ^ 46"
    and "0 < sint W" and "sint W * sint H = int (length gids)"
    and "0 \<le> sint y" and "sint y \<le> sint H" and "sint j = 4 * (sint y * sint W)"
  shows "\<exists>j' gids'. Decode_rows bs W H y (j, gids) = Inr (j', gids') \<and>
      length gids' = length gids \<and>
      (\<forall>k < length gids. gids' ! k =
         (if sint y * sint W \<le> int k then rid_at bs k else gids ! k))"
  using assms
proof (induction n \<equiv> "nat (sint H - sint y)" arbitrary: y j gids)
  case 0
  then have "sint y = sint H" by simp
  with 0 show ?case by (auto simp: Decode_rows_stop mult.commute)
next
  case (Suc n)
  then have lt: "sint y < sint H" by simp
  let ?B = "sint y * sint W"
  have y1: "sint (y + 1) = sint y + 1" using lt by (rule sint_Suc64)
  from Suc.prems(3,5) have B0: "0 \<le> ?B" by simp
  from lt Suc.prems(3) have "(sint y + 1) * sint W \<le> sint H * sint W"
    by (intro mult_right_mono) simp_all
  with Suc.prems(4) have B1: "?B + sint W \<le> int (length gids)"
    by (simp add: algebra_simps)
  with Suc.prems(2,3) B0 have "sint (y * W) = ?B"
    by (intro sint_mult64) simp_all
  with Suc.prems(1,2) have "\<exists>j' gids'. Decode_row bs W y 0 (j, gids) = Inr (j', gids') \<and>
      sint j' = 4 * (?B + sint W) \<and> length gids' = length gids \<and>
      (\<forall>k < length gids. gids' ! k =
         (if ?B + sint (0 :: go_int) \<le> int k \<and> int k < ?B + sint W then rid_at bs k
          else gids ! k))"
    using B0 B1 Suc.prems(3,7) by (intro Decode_row_correct) simp_all
  then obtain j1 gids1 where
    row: "Decode_row bs W y 0 (j, gids) = Inr (j1, gids1)" "sint j1 = 4 * (?B + sint W)"
      "length gids1 = length gids"
      "\<forall>k < length gids. gids1 ! k =
         (if ?B \<le> int k \<and> int k < ?B + sint W then rid_at bs k else gids ! k)"
    by auto
  have "\<exists>j' gids'. Decode_rows bs W H (y + 1) (j1, gids1) = Inr (j', gids') \<and>
      length gids' = length gids1 \<and>
      (\<forall>k < length gids1. gids' ! k =
         (if sint (y + 1) * sint W \<le> int k then rid_at bs k else gids1 ! k))"
  proof (rule Suc.hyps(1))
    show "n = nat (sint H - sint (y + 1))" using Suc.hyps(2) y1 by simp
    show "int (length bs) = 4 * int (length gids1)" using Suc.prems(1) row(3) by simp
    show "int (length gids1) \<le> 2 ^ 46" using Suc.prems(2) row(3) by simp
    show "0 < sint W" by (rule Suc.prems(3))
    show "sint W * sint H = int (length gids1)" using Suc.prems(4) row(3) by simp
    show "0 \<le> sint (y + 1)" using Suc.prems(5) y1 by simp
    show "sint (y + 1) \<le> sint H" using lt y1 by simp
    show "sint j1 = 4 * (sint (y + 1) * sint W)" using row(2) y1 by (simp add: algebra_simps)
  qed
  then obtain j' gids' where
    rest: "Decode_rows bs W H (y + 1) (j1, gids1) = Inr (j', gids')"
      "length gids' = length gids"
      "\<forall>k < length gids. gids' ! k =
         (if ?B + sint W \<le> int k then rid_at bs k else gids1 ! k)"
    using row(3) y1 by (auto simp: algebra_simps)
  have "\<forall>k < length gids. gids' ! k = (if ?B \<le> int k then rid_at bs k else gids ! k)"
    using rest(3) row(4) Suc.prems(3) by auto
  moreover have "Decode_rows bs W H y (j, gids) = Inr (j', gids')"
    using lt row(1) rest(1) by (subst Decode_rows.simps) simp
  ultimately show ?case using rest(2) by simp
qed

lemma Layer_Decode_correct:
  assumes dec: "decodeBytes lib (Data l) = Inr bs"
    and len: "int (length bs) = sint (Width l) * sint (Height l) * 4"
    and small: "int (length bs) \<le> maxAlloc"
  shows "\<exists>gids. Layer_Decode lib l = Inr gids \<and>
      int (length gids) = sint (Width l) * sint (Height l) \<and>
      (\<forall>y x. 0 \<le> y \<and> y < sint (Height l) \<and> 0 \<le> x \<and> x < sint (Width l) \<longrightarrow>
         gids ! nat (y * sint (Width l) + x) = rid_at bs (nat (y * sint (Width l) + x))) \<and>
      (0 \<le> sint (Width l) \<and> 0 \<le> sint (Height l) \<longrightarrow>
         gids = map (rid_at bs) [0..<length gids])"
proof -
  let ?W = "Width l" and ?H = "Height l"
  define n where "n = sint ?W * sint ?H"
  let ?zeros = "replicate (nat n) (0 :: GID)"
  from len have len': "int (length bs) = n * 4" by (simp only: n_def)
  then have n0: "0 \<le> n" by simp
  from len' small have n1: "n \<le> 2 ^ 46" by (simp add: maxAlloc_def)
  from n0 n1 have b: "- (2 ^ 63) \<le> n" "n < 2 ^ 63" by simp_all
  have wh: "sint (?W * ?H) = n"
    using sint_mult64 [of ?W ?H] b unfolding n_def by blast
  have s4: "sint (4 :: go_int) = 4" by simp
  from n0 n1 have b4: "- (2 ^ 63) \<le> n * 4" "n * 4 < 2 ^ 63" by simp_all
  have wh4: "sint (?W * ?H * 4) = n * 4"
    using sint_mult64 [of "?W * ?H" 4] b4 unfolding wh s4 by blast
  have mk: "make_GIDs (?W * ?H) = Inr ?zeros"
    using wh n0 n1 by (simp add: make_GIDs_def maxAlloc_def)
  have lz: "int (length ?zeros) = n" using n0 by simp
  have dl: "Layer_Decode lib l = Inr gids"
    if "Decode_rows bs ?W ?H 0 (0, ?zeros) = Inr (j, gids)" for j gids
    using dec len' wh4 mk that by (simp add: Layer_Decode_def)
  show ?thesis
  proof (cases "0 < sint ?W")
    case False
    then have "Decode_rows bs ?W ?H 0 (0, ?zeros) = Inr (0, ?zeros)"
      by (simp add: Decode_rows_narrow)
    then have res: "Layer_Decode lib l = Inr ?zeros" by (rule dl)
    have "n = 0" if "0 \<le> sint ?W" "0 \<le> sint ?H"
      using that False unfolding n_def by simp
    then have "0 \<le> sint ?W \<and> 0 \<le> sint ?H \<longrightarrow> ?zeros = map (rid_at bs) [0..<length ?zeros]"
      by simp
    moreover have "int (length ?zeros) = sint ?W * sint ?H" using lz by (simp only: n_def)
    ultimately show ?thesis using res False by auto
  next
    case True
    from n0 True have h0: "0 \<le> sint ?H" unfolding n_def by (simp add: zero_le_mult_iff)
    have "\<exists>j' gids'. Decode_rows bs ?W ?H 0 (0, ?zeros) = Inr (j', gids') \<and>
      length gids' = length ?zeros \<and>
      (\<forall>k < length ?zeros. gids' ! k =
         (if sint (0 :: go_int) * sint ?W \<le> int k then rid_at bs k else ?zeros ! k))"
    proof (rule Decode_rows_correct)
      show "int (length bs) = 4 * int (length ?zeros)" using len' lz by simp
      show "int (length ?zeros) \<le> 2 ^ 46" using n1 lz by simp
      show "0 < sint ?W" by (rule True)
      show "sint ?W * sint ?H = int (length ?zeros)" using lz by (simp only: n_def)
      show "0 \<le> sint (0 :: go_int)" by simp
      show "sint (0 :: go_int) \<le> sint ?H" using h0 by simp
      show "sint (0 :: go_int) = 4 * (sint (0 :: go_int) * sint ?W)" by simp
    qed
    then obtain j' gids' where
      rows: "Decode_rows bs ?W ?H 0 (0, ?zeros) = Inr (j', gids')"
        "length gids' = nat n" "\<forall>k < nat n. gids' ! k = rid_at bs k"
      by auto
    from rows(1) have res: "Layer_Decode lib l = Inr gids'" by (rule dl)
    have cells: "gids' ! nat (y * sint ?W + x) = rid_at bs (nat (y * sint ?W + x))"
      if "0 \<le> y" "y < sint ?H" "0 \<le> x" "x < sint ?W" for y x
    proof -
      from that True have "(y + 1) * sint ?W \<le> sint ?H * sint ?W"
        by (intro mult_right_mono) simp_all
      then have "y * sint ?W + sint ?W \<le> n"
        unfolding n_def by (simp add: algebra_simps)
      with that have "y * sint ?W + x < n" by simp
      moreover from that True have "0 \<le> y * sint ?W + x" by simp
      ultimately have "nat (y * sint ?W + x) < nat n" by simp
      with rows(3) show ?thesis by simp
    qed
    have "gids' = map (rid_at bs) [0..<length gids']"
      using rows(2,3) by (intro nth_equalityI) simp_all
    moreover have "int (length gids') = sint ?W * sint ?H"
      using rows(2) n0 by (simp add: n_def)
    ultimately show ?thesis using res cells by auto
  qed
qed

lemma rid_at_roundtrip:
  "rid_at [ucast (g :: GID), ucast (drop_bit 8 g), ucast (drop_bit 16 g), ucast (drop_bit 24 g)] 0
     = g"
proof -
  have "(ucast (ucast g :: byte) OR push_bit 8 (ucast (ucast (drop_bit 8 g) :: byte)) OR
         push_bit 16 (ucast (ucast (drop_bit 16 g) :: byte)) OR
         push_bit 24 (ucast (ucast (drop_bit 24 g) :: byte)) :: GID) = g"
  proof (rule bit_eqI)
    fix n assume "possible_bit TYPE(GID) n"
    then have n: "n < 32" by simp
    consider "n < 8" | "8 \<le> n" "n < 16" | "16 \<le> n" "n < 24" | "24 \<le> n" "n < 32"
      using n by linarith
    then show "bit (ucast (ucast g :: byte) OR push_bit 8 (ucast (ucast (drop_bit 8 g) :: byte)) OR
         push_bit 16 (ucast (ucast (drop_bit 16 g) :: byte)) OR
         push_bit 24 (ucast (ucast (drop_bit 24 g) :: byte)) :: GID) n = bit g n"
      by cases (auto simp: bit_simps)
  qed
  then show ?thesis by (simp add: rid_at_def)
qed

text \<open>
  Claim C2. When the payload decodes and decompresses to \<open>dataBytes\<close> and the length of
  \<open>dataBytes\<close> is exactly width \<open>\<times>\<close> height \<open>\<times>\<close> 4 (as integers, and at most what
  the runtime can allocate), \<^verbatim>\<open>Layer.Decode\<close> succeeds with a sequence of exactly width
  \<open>\<times>\<close> height RIDs, and for every row \<open>0 \<le> y < height\<close> and column
  \<open>0 \<le> x < width\<close> the RID at index \<open>y * width + x\<close> is the little-endian value
  \<open>b0 | b1<<8 | b2<<16 | b3<<24\<close> of the 4-byte group of that index. With a width and a
  height that are not negative the whole output is the sequence of the values of all
  groups, in order. (A layer with a negative width and a negative height has no row and
  no column: both loops are skipped and the output keeps the zeros of \<^verbatim>\<open>make\<close>.) The
  four little-endian bytes of RID 300 are \<open>0x2C, 1, 0, 0\<close>, and decoding them as a
  layer of one tile yields 300.
\<close>

theorem Decode_success:
  "(decodeBytes lib (Data l) = Inr dataBytes \<and>
    int (length dataBytes) = sint (Width l) * sint (Height l) * 4 \<and>
    int (length dataBytes) \<le> maxAlloc \<longrightarrow>
    (\<exists>gids. Layer_Decode lib l = Inr gids \<and>
       int (length gids) = sint (Width l) * sint (Height l) \<and>
       (\<forall>y x. 0 \<le> y \<and> y < sint (Height l) \<and> 0 \<le> x \<and> x < sint (Width l) \<longrightarrow>
          gids ! nat (y * sint (Width l) + x) =
            rid_at dataBytes (nat (y * sint (Width l) + x))) \<and>
       (0 \<le> sint (Width l) \<and> 0 \<le> sint (Height l) \<longrightarrow>
          gids = map (rid_at dataBytes) [0..<length gids]))) \<and>
   [ucast (300 :: GID), ucast (drop_bit 8 (300 :: GID)), ucast (drop_bit 16 (300 :: GID)),
    ucast (drop_bit 24 (300 :: GID))] = [0x2C, 1, 0, 0 :: byte] \<and>
   Layer_Decode (stub_lib [0x2C, 1, 0, 0])
     \<lparr>Width = 1, Height = 1, Data = \<lparr>Encoding = Base64, Compression = Gzip, Bytes = []\<rparr>\<rparr> = Inr [300]"
proof (intro conjI)
  show "decodeBytes lib (Data l) = Inr dataBytes \<and>
    int (length dataBytes) = sint (Width l) * sint (Height l) * 4 \<and>
    int (length dataBytes) \<le> maxAlloc \<longrightarrow>
    (\<exists>gids. Layer_Decode lib l = Inr gids \<and>
       int (length gids) = sint (Width l) * sint (Height l) \<and>
       (\<forall>y x. 0 \<le> y \<and> y < sint (Height l) \<and> 0 \<le> x \<and> x < sint (Width l) \<longrightarrow>
          gids ! nat (y * sint (Width l) + x) =
            rid_at dataBytes (nat (y * sint (Width l) + x))) \<and>
       (0 \<le> sint (Width l) \<and> 0 \<le> sint (Height l) \<longrightarrow>
          gids = map (rid_at dataBytes) [0..<length gids]))"
    using Layer_Decode_correct [of lib l dataBytes] by blast
  show "[ucast (300 :: GID), ucast (drop_bit 8 (300 :: GID)), ucast (drop_bit 16 (300 :: GID)),
    ucast (drop_bit 24 (300 :: GID))] = [0x2C, 1, 0, 0 :: byte]"
    by simp
  show "Layer_Decode (stub_lib [0x2C, 1, 0, 0])
     \<lparr>Width = 1, Height = 1, Data = \<lparr>Encoding = Base64, Compression = Gzip, Bytes = []\<rparr>\<rparr> = Inr [300]"
    by (simp add: stub_Layer_Decode_1x1)
qed

theorem Decode_success_witness:
  "decodeBytes (stub_lib [1, 0, 0, 0, 2, 0, 0, 0, 3, 0, 0, 0, 4, 0, 0, 0x80])
     (Data \<lparr>Width = 2, Height = 2, Data = \<lparr>Encoding = Base64, Compression = Gzip, Bytes = []\<rparr>\<rparr>) =
     Inr [1, 0, 0, 0, 2, 0, 0, 0, 3, 0, 0, 0, 4, 0, 0, 0x80] \<and>
   int (length [1, 0, 0, 0, 2, 0, 0, 0, 3, 0, 0, 0, 4, 0, 0, 0x80]) = sint (2 :: go_int) * sint (2 :: go_int) * 4 \<and>
   Layer_Decode (stub_lib [1, 0, 0, 0, 2, 0, 0, 0, 3, 0, 0, 0, 4, 0, 0, 0x80])
     \<lparr>Width = 2, Height = 2, Data = \<lparr>Encoding = Base64, Compression = Gzip, Bytes = []\<rparr>\<rparr> =
     Inr [1, 2, 3, 0x80000004]"
proof -
  let ?bs = "[1, 0, 0, 0, 2, 0, 0, 0, 3, 0, 0, 0, 4, 0, 0, 0x80] :: byte list"
  let ?L = "\<lparr>Width = 2, Height = 2, Data = \<lparr>Encoding = Base64, Compression = Gzip, Bytes = []\<rparr>\<rparr>"
  have d: "decodeBytes (stub_lib ?bs) (Data ?L) = Inr ?bs"
    by (simp add: decodeBytes_def stub_lib_def Gzip_def)
  have n: "int (length ?bs) = sint (Width ?L) * sint (Height ?L) * 4" by simp
  have a: "int (length ?bs) \<le> maxAlloc" by (simp add: maxAlloc_def)
  from Decode_success [of "stub_lib ?bs" ?L ?bs] d n a
  obtain gids where g: "Layer_Decode (stub_lib ?bs) ?L = Inr gids"
    "int (length gids) = sint (Width ?L) * sint (Height ?L)"
    "0 \<le> sint (Width ?L) \<and> 0 \<le> sint (Height ?L) \<longrightarrow>
       gids = map (rid_at ?bs) [0..<length gids]"
    by blast
  from g(2) have "length gids = 4" by simp
  with g(3) have "gids = map (rid_at ?bs) [0..<4]" by simp
  also have "\<dots> = [1, 2, 3, 0x80000004]" by code_simp
  finally show ?thesis using g(1) d by simp
qed

end
